theory Spec2Isabelle
  imports Main "HOL-Library.Word" "HOL-Library.List_Lexorder"
begin

section \<open>JavaScript strings and arrays\<close>

text \<open>
  A JavaScript string is a sequence of UTF-16 code units: \<open>length\<close> counts code units and
  \<open>slice\<close> cuts between them. The default order of \<open>Array.prototype.sort\<close> on strings is
  the lexicographic order of the code units, which is the list order of
  \<open>HOL-Library.List_Lexorder\<close> over the unsigned order of words.
\<close>

type_synonym jsstring = "16 word list"

text \<open>\<open>String.prototype.slice(b, e)\<close> and \<open>Array.prototype.slice(b, e)\<close> for indices
  \<open>0 \<le> b\<close>, \<open>0 \<le> e\<close>: both ends are clamped to the length.\<close>

definition slice :: "'a list \<Rightarrow> nat \<Rightarrow> nat \<Rightarrow> 'a list" where
  "slice s b e = take (e - b) (drop b s)"

text \<open>\<open>xs.slice(start)\<close> for an integer \<open>start\<close>: a negative start counts from the end
  (clamped at the front), a non-negative one from the front.\<close>

definition slice_from :: "'a list \<Rightarrow> int \<Rightarrow> 'a list" where
  "slice_from xs start =
     (if start < 0 then drop (nat (max (int (length xs) + start) 0)) xs
      else drop (nat start) xs)"

text \<open>\<open>Array.prototype.join(sep)\<close>.\<close>

fun join :: "jsstring \<Rightarrow> jsstring list \<Rightarrow> jsstring" where
  "join s [] = []"
| "join s [x] = x"
| "join s (x # y # ys) = x @ s @ join s (y # ys)"

text \<open>\<open>String.prototype.split(c)\<close> for a separator of one code unit.\<close>

fun split_on :: "16 word \<Rightarrow> jsstring \<Rightarrow> jsstring list" where
  "split_on c [] = [[]]"
| "split_on c (x # xs) =
     (if x = c then [] # split_on c xs
      else (case split_on c xs of
              [] \<Rightarrow> [[x]]
            | y # ys \<Rightarrow> (x # y) # ys))"

text \<open>The line terminators and the white space of ECMAScript; \<open>trim\<close> removes both from
  both ends.\<close>

definition is_line_terminator :: "16 word \<Rightarrow> bool" where
  "is_line_terminator c = (c = 0x000A \<or> c = 0x000D \<or> c = 0x2028 \<or> c = 0x2029)"

definition is_white_space :: "16 word \<Rightarrow> bool" where
  "is_white_space c =
     (c = 0x0009 \<or> c = 0x000B \<or> c = 0x000C \<or> c = 0x0020 \<or> c = 0x00A0 \<or> c = 0xFEFF
      \<or> c = 0x1680 \<or> (0x2000 \<le> c \<and> c \<le> 0x200A) \<or> c = 0x202F \<or> c = 0x205F
      \<or> c = 0x3000)"

definition trim :: "jsstring \<Rightarrow> jsstring" where
  "trim s =
     (let ws = (\<lambda>c. is_white_space c \<or> is_line_terminator c)
      in rev (dropWhile ws (rev (dropWhile ws s))))"

text \<open>Template-literal rendering of a non-negative integer: its decimal digits.\<close>

fun num_str :: "nat \<Rightarrow> jsstring" where
  "num_str n =
     (if n < 10 then [0x0030 + of_nat n]
      else num_str (n div 10) @ [0x0030 + of_nat (n mod 10)])"

declare num_str.simps [simp del]

text \<open>A \<open>Map\<close> keeps its keys in insertion order; \<open>set\<close> on a present key replaces the value
  in place. A \<open>Set\<close> keeps its members in insertion order; \<open>add\<close> of a member is a no-op.\<close>

fun map_set :: "'k \<Rightarrow> 'v \<Rightarrow> ('k \<times> 'v) list \<Rightarrow> ('k \<times> 'v) list" where
  "map_set k v [] = [(k, v)]"
| "map_set k v ((k', v') # m) =
     (if k = k' then (k, v) # m else (k', v') # map_set k v m)"

definition map_has :: "('k \<times> 'v) list \<Rightarrow> 'k \<Rightarrow> bool" where
  "map_has m k = (map_of m k \<noteq> None)"

definition set_add :: "'a \<Rightarrow> 'a list \<Rightarrow> 'a list" where
  "set_add x s = (if x \<in> set s then s else s @ [x])"

text \<open>The idiom \<open>m.get(k) || []\<close> for a map to sets.\<close>

definition get_or_empty :: "('k \<times> 'a list) list \<Rightarrow> 'k \<Rightarrow> 'a list" where
  "get_or_empty m k = (case map_of m k of None \<Rightarrow> [] | Some bs \<Rightarrow> bs)"

section \<open>Configuration and environment\<close>

text \<open>
  The values read from the process environment. \<open>PER_BRANCH_LIMIT\<close> and
  \<open>DIFF_CHUNK_MAX_CHARS\<close> are results of \<open>parseInt\<close>. The chunk limit is a natural number
  here: for a limit below zero \<open>chunkBySize\<close> behaves as for zero (no buffer is ever
  non-empty and a non-empty part never leaves the slicing loop). The value \<open>NaN\<close>, which
  \<open>parseInt\<close> returns for text that is not a number, is outside the model.
\<close>

record config =
  OPENAI_API_KEY :: jsstring
  REPO :: jsstring
  PER_BRANCH_LIMIT :: int
  DIFF_CHUNK_MAX_CHARS :: nat

text \<open>The result of a \<open>chat\<close> call: the promise resolves with the trimmed content of the
  first choice (the empty string when there is none), or rejects; \<open>Rejected\<close> carries
  \<open>String(e)\<close>.\<close>

datatype chat_result = Resolved jsstring | Rejected jsstring

text \<open>
  What the script reads from outside: the standard output of each git command (before
  \<open>sh\<close> trims it), the replies of the completion endpoint and the date label. A command
  that ends in \<open>|| true\<close> has an output for every argument; for the others \<open>None\<close> says that
  \<open>execSync\<close> throws. A reply depends on the number of calls made before it and on the
  prompt. A failure of \<open>execSync\<close> that is not the exit status of the command (no shell,
  an output larger than the buffer) and the delivery of the report are outside the model.
\<close>

record env =
  for_each_ref_out :: jsstring
  log_branch_out :: "jsstring \<Rightarrow> jsstring"
  log_all_out :: jsstring
  show_title_out :: "jsstring \<Rightarrow> jsstring option"
  show_author_out :: "jsstring \<Rightarrow> jsstring option"
  rev_list_out :: "jsstring \<Rightarrow> jsstring"
  hash_object_out :: "jsstring option"
  diff_out :: "jsstring \<Rightarrow> jsstring \<Rightarrow> jsstring"
  reply :: "nat \<Rightarrow> jsstring \<Rightarrow> chat_result"
  todayLabel :: jsstring

definition sh :: "jsstring \<Rightarrow> jsstring" where
  "sh out = trim out"

text \<open>The idiom \<open>sh(cmd).split("\n").map((s) => s.trim()).filter(Boolean)\<close>.\<close>

definition sh_lines :: "jsstring \<Rightarrow> jsstring list" where
  "sh_lines out = filter (\<lambda>s. s \<noteq> []) (map trim (split_on 0x000A (sh out)))"

section \<open>Commit collection and branch attribution\<close>

record CommitMeta =
  sha :: jsstring
  title :: jsstring
  author :: jsstring
  url :: jsstring
  branches :: "jsstring list"

definition remoteBranches :: "env \<Rightarrow> jsstring list" where
  "remoteBranches e = sh_lines (for_each_ref_out e)"

text \<open>The loop filling \<open>branchToCommits\<close>: one \<open>git log --reverse\<close> per branch, cut by
  \<open>list.slice(-PER_BRANCH_LIMIT)\<close>.\<close>

fun branchToCommits_loop ::
  "env \<Rightarrow> int \<Rightarrow> jsstring list \<Rightarrow> (jsstring \<times> jsstring list) list
   \<Rightarrow> (jsstring \<times> jsstring list) list" where
  "branchToCommits_loop e lim [] m = m"
| "branchToCommits_loop e lim (rb # rbs) m =
     (let list = sh_lines (log_branch_out e rb)
      in branchToCommits_loop e lim rbs (map_set rb (slice_from list (- lim)) m))"

definition branchToCommits :: "env \<Rightarrow> config \<Rightarrow> (jsstring \<times> jsstring list) list" where
  "branchToCommits e cfg = branchToCommits_loop e (PER_BRANCH_LIMIT cfg) (remoteBranches e) []"

text \<open>The inner loop of the reverse map: \<open>for (const sha of shas)\<close>. The key is present when
  \<open>get\<close> is reached, since the line before inserts it.\<close>

fun shaToBranches_inner ::
  "jsstring \<Rightarrow> jsstring list \<Rightarrow> (jsstring \<times> jsstring list) list
   \<Rightarrow> (jsstring \<times> jsstring list) list" where
  "shaToBranches_inner rb [] m = m"
| "shaToBranches_inner rb (s # shas) m =
     (let m1 = (if \<not> map_has m s then map_set s [] m else m)
      in shaToBranches_inner rb shas
           (case map_of m1 s of
              None \<Rightarrow> m1
            | Some bs \<Rightarrow> map_set s (set_add rb bs) m1))"

fun shaToBranches_loop ::
  "(jsstring \<times> jsstring list) list \<Rightarrow> (jsstring \<times> jsstring list) list
   \<Rightarrow> (jsstring \<times> jsstring list) list" where
  "shaToBranches_loop [] m = m"
| "shaToBranches_loop ((rb, shas) # rest) m =
     shaToBranches_loop rest (shaToBranches_inner rb shas m)"

definition shaToBranches :: "env \<Rightarrow> config \<Rightarrow> (jsstring \<times> jsstring list) list" where
  "shaToBranches e cfg = shaToBranches_loop (branchToCommits e cfg) []"

definition allShasOrdered :: "env \<Rightarrow> jsstring list" where
  "allShasOrdered e = sh_lines (log_all_out e)"

text \<open>The filter callback with its \<open>seen\<close> set.\<close>

fun commitShas_filter ::
  "(jsstring \<times> jsstring list) list \<Rightarrow> jsstring list \<Rightarrow> jsstring list \<Rightarrow> jsstring list" where
  "commitShas_filter m seen [] = []"
| "commitShas_filter m seen (s # rest) =
     (if s \<in> set seen then commitShas_filter m seen rest
      else if \<not> map_has m s then commitShas_filter m seen rest
      else s # commitShas_filter m (set_add s seen) rest)"

definition commitShas :: "env \<Rightarrow> config \<Rightarrow> jsstring list" where
  "commitShas e cfg = commitShas_filter (shaToBranches e cfg) [] (allShasOrdered e)"

definition serverUrl :: jsstring where
  "serverUrl = [0x68, 0x74, 0x74, 0x70, 0x73, 0x3A, 0x2F, 0x2F, 0x67, 0x69, 0x74, 0x68,
                0x75, 0x62, 0x2E, 0x63, 0x6F, 0x6D]"

definition commit_path :: jsstring where
  "commit_path = [0x2F, 0x63, 0x6F, 0x6D, 0x6D, 0x69, 0x74, 0x2F]"

text \<open>The callback of \<open>commitShas.map\<close>; \<open>None\<close> when one of the two \<open>git show\<close> calls
  throws.\<close>

definition commitMeta_of ::
  "env \<Rightarrow> config \<Rightarrow> (jsstring \<times> jsstring list) list \<Rightarrow> jsstring \<Rightarrow> CommitMeta option" where
  "commitMeta_of e cfg s2b s =
     (case show_title_out e s of
        None \<Rightarrow> None
      | Some t \<Rightarrow>
          (case show_author_out e s of
             None \<Rightarrow> None
           | Some a \<Rightarrow>
               Some \<lparr> sha = s, title = sh t, author = sh a,
                      url = (if REPO cfg \<noteq> []
                             then serverUrl @ [0x2F] @ REPO cfg @ commit_path @ s
                             else serverUrl @ commit_path @ s),
                      branches = sort (get_or_empty s2b s) \<rparr>))"

fun map_all :: "('a \<Rightarrow> 'b option) \<Rightarrow> 'a list \<Rightarrow> 'b list option" where
  "map_all f [] = Some []"
| "map_all f (x # xs) =
     (case f x of
        None \<Rightarrow> None
      | Some y \<Rightarrow> (case map_all f xs of None \<Rightarrow> None | Some ys \<Rightarrow> Some (y # ys)))"

definition commitMetas :: "env \<Rightarrow> config \<Rightarrow> CommitMeta list option" where
  "commitMetas e cfg = map_all (commitMeta_of e cfg (shaToBranches e cfg)) (commitShas e cfg)"

section \<open>Diff retrieval and chunking\<close>

definition getParentSha :: "env \<Rightarrow> jsstring \<Rightarrow> jsstring option" where
  "getParentSha e s =
     (let line = sh (rev_list_out e s);
          parts = filter (\<lambda>x. x \<noteq> []) (split_on 0x0020 line)
      in if 1 < length parts then Some (parts ! 1) else None)"

text \<open>\<open>None\<close> when \<open>git hash-object\<close>, the one command here without \<open>|| true\<close>, throws.\<close>

definition getDiff :: "env \<Rightarrow> jsstring \<Rightarrow> jsstring option" where
  "getDiff e s =
     (let base = (case getParentSha e s of
                    Some parent \<Rightarrow>
                      (if parent \<noteq> [] then Some parent else map_option sh (hash_object_out e))
                  | None \<Rightarrow> map_option sh (hash_object_out e))
      in (case base of
            None \<Rightarrow> None
          | Some b \<Rightarrow> Some (sh (diff_out e b s))))"

definition diff_git :: jsstring where
  "diff_git = [0x64, 0x69, 0x66, 0x66, 0x20, 0x2D, 0x2D, 0x67, 0x69, 0x74]"

text \<open>
  \<open>patch.split(/^diff --git.*$/m)\<close>. The pattern matches at a line start where the text
  \<open>diff --git\<close> follows, and takes the rest of that line; \<open>bol\<close> says that the position is
  a line start, \<open>cur\<close> is the piece read so far.
\<close>

function split_diff_lines :: "bool \<Rightarrow> jsstring \<Rightarrow> jsstring \<Rightarrow> jsstring list" where
  "split_diff_lines bol cur [] = [cur]"
| "split_diff_lines bol cur (c # cs) =
     (if bol \<and> take (length diff_git) (c # cs) = diff_git
      then cur # split_diff_lines False []
                   (dropWhile (\<lambda>x. \<not> is_line_terminator x) (drop (length diff_git) (c # cs)))
      else split_diff_lines (is_line_terminator c) (cur @ [c]) cs)"
  by pat_completeness auto
termination
proof (relation "measure (\<lambda>(bol, cur, s). length s)")
  fix bol :: bool and cur :: jsstring and c :: "16 word" and cs :: jsstring
  have "length (dropWhile (\<lambda>x. \<not> is_line_terminator x) (drop (length diff_git) (c # cs)))
          \<le> length (drop (length diff_git) (c # cs))"
    by (rule length_dropWhile_le)
  also have "\<dots> < length (c # cs)"
    by (simp add: diff_git_def)
  finally show "((False, [], dropWhile (\<lambda>x. \<not> is_line_terminator x)
                               (drop (length diff_git) (c # cs))), bol, cur, c # cs)
                \<in> measure (\<lambda>(bol, cur, s). length s)"
    by simp
qed simp_all

definition splitPatchByFile :: "jsstring \<Rightarrow> jsstring list" where
  "splitPatchByFile patch =
     (if patch = [] then []
      else filter (\<lambda>p. p \<noteq> []) (map trim (split_diff_lines True [] patch)))"

definition blank_line :: jsstring where
  "blank_line = [0x000A, 0x000A]"

text \<open>
  The inner loop of \<open>chunkBySize\<close>,
  \<open>for (let i = 0; i < p.length; i += limit) out.push(p.slice(i, i + limit))\<close>.
  With \<open>limit = 0\<close> and \<open>i < p.length\<close> it never ends; \<open>None\<close> is that case.
\<close>

partial_function (option) slice_loop ::
  "jsstring \<Rightarrow> nat \<Rightarrow> nat \<Rightarrow> jsstring list \<Rightarrow> jsstring list option" where
  "slice_loop p i limit out =
     (if i < length p
      then slice_loop p (i + limit) limit (out @ [slice p i (i + limit)])
      else Some out)"

declare slice_loop.simps [code]

text \<open>The outer loop \<open>for (const p of parts)\<close> with its variables \<open>out\<close> and \<open>buf\<close>, and the
  final \<open>if (buf) out.push(buf)\<close>.\<close>

fun chunk_loop ::
  "nat \<Rightarrow> jsstring list \<Rightarrow> jsstring list \<Rightarrow> jsstring \<Rightarrow> jsstring list option" where
  "chunk_loop limit [] out buf = Some (if buf \<noteq> [] then out @ [buf] else out)"
| "chunk_loop limit (p # ps) out buf =
     (let candidate = (if buf \<noteq> [] then buf @ blank_line @ p else p)
      in if length candidate > limit
         then (let out1 = (if buf \<noteq> [] then out @ [buf] else out)
               in if length p > limit
                  then (case slice_loop p 0 limit out1 of
                          None \<Rightarrow> None
                        | Some out2 \<Rightarrow> chunk_loop limit ps out2 [])
                  else chunk_loop limit ps out1 p)
         else chunk_loop limit ps out candidate)"

definition chunkBySize :: "jsstring list \<Rightarrow> nat \<Rightarrow> jsstring list option" where
  "chunkBySize parts limit = chunk_loop limit parts [] []"

section \<open>Prompts\<close>

text \<open>
  The literal text of the three prompt templates and of the placeholders, as code units,
  in the order in which the templates interleave it with their arguments.
\<close>

definition chunkPrompt_txt0 :: jsstring where
  "chunkPrompt_txt0 =
    [0x4F60, 0x662F, 0x4E00, 0x540D, 0x8D44, 0x6DF1, 0x5DE5, 0x7A0B, 0x5E08, 0x4E0E,
     0x53D1, 0x5E03, 0x7ECF, 0x7406, 0x3002, 0x4EE5, 0x4E0B, 0x662F, 0x63D0, 0x4EA4,
     0x0020]"

definition chunkPrompt_txt1 :: jsstring where
  "chunkPrompt_txt1 =
    [0xFF08]"

definition chunkPrompt_txt2 :: jsstring where
  "chunkPrompt_txt2 =
    [0xFF09, 0x7684, 0x0020, 0x0064, 0x0069, 0x0066, 0x0066, 0x0020, 0x7247, 0x6BB5,
     0xFF08, 0x7B2C, 0x0020]"

definition chunkPrompt_txt3 :: jsstring where
  "chunkPrompt_txt3 =
    [0x002F]"

definition chunkPrompt_txt4 :: jsstring where
  "chunkPrompt_txt4 =
    [0x0020, 0x6BB5, 0xFF09, 0xFF0C, 0x8BF7, 0x7528, 0x4E2D, 0x6587, 0x8F93, 0x51FA,
     0x7ED3, 0x6784, 0x5316, 0x6458, 0x8981, 0xFF1A, 0x000A, 0x000A, 0x63D0, 0x4EA4,
     0x4FE1, 0x606F, 0xFF1A, 0x000A, 0x002D, 0x0020, 0x0053, 0x0048, 0x0041, 0x003A,
     0x0020]"

definition chunkPrompt_txt5 :: jsstring where
  "chunkPrompt_txt5 =
    [0x000A, 0x002D, 0x0020, 0x6807, 0x9898, 0x003A, 0x0020]"

definition chunkPrompt_txt6 :: jsstring where
  "chunkPrompt_txt6 =
    [0x000A, 0x002D, 0x0020, 0x4F5C, 0x8005, 0x003A, 0x0020]"

definition chunkPrompt_txt7 :: jsstring where
  "chunkPrompt_txt7 =
    [0x000A, 0x002D, 0x0020, 0x5206, 0x652F, 0x003A, 0x0020]"

definition chunkPrompt_txt8 :: jsstring where
  "chunkPrompt_txt8 =
    [0x000A, 0x002D, 0x0020, 0x94FE, 0x63A5, 0x003A, 0x0020]"

definition chunkPrompt_txt9 :: jsstring where
  "chunkPrompt_txt9 =
    [0x000A, 0x000A, 0x8981, 0x6C42, 0x8F93, 0x51FA, 0xFF1A, 0x000A, 0x0031, 0x0029,
     0x0020, 0x53D8, 0x66F4, 0x8981, 0x70B9, 0xFF08, 0x9762, 0x5411, 0x5DE5, 0x7A0B,
     0x5E08, 0x4E0E, 0x4EA7, 0x54C1, 0xFF09, 0xFF1A, 0x5217, 0x51FA, 0x6B64, 0x7247,
     0x6BB5, 0x6D89, 0x53CA, 0x7684, 0x4E3B, 0x8981, 0x6539, 0x52A8, 0x4E0E, 0x610F,
     0x56FE, 0x000A, 0x0032, 0x0029, 0x0020, 0x5F71, 0x54CD, 0x8303, 0x56F4, 0xFF1A,
     0x6A21, 0x5757, 0x002F, 0x63A5, 0x53E3, 0x002F, 0x5173, 0x952E, 0x6587, 0x4EF6,
     0x000A, 0x0033, 0x0029, 0x0020, 0x98CE, 0x9669, 0x0026, 0x56DE, 0x6EDA, 0x70B9,
     0x000A, 0x0034, 0x0029, 0x0020, 0x6D4B, 0x8BD5, 0x5EFA, 0x8BAE, 0x000A, 0x6CE8,
     0x610F, 0xFF1A, 0x4EC5, 0x57FA, 0x4E8E, 0x5F53, 0x524D, 0x7247, 0x6BB5, 0xFF0C,
     0x4E0D, 0x8981, 0x81C6, 0x6D4B, 0xFF1B, 0x4E0D, 0x8981, 0x8D34, 0x957F, 0x4EE3,
     0x7801, 0xFF1B, 0x5982, 0x679C, 0x53EA, 0x662F, 0x683C, 0x5F0F, 0x5316, 0x002F,
     0x91CD, 0x547D, 0x540D, 0x4E5F, 0x8BF7, 0x660E, 0x786E, 0x6307, 0x51FA, 0x3002,
     0x000A, 0x000A, 0x003D, 0x003D, 0x003D, 0x0020, 0x0044, 0x0049, 0x0046, 0x0046,
     0x0020, 0x0050, 0x0041, 0x0052, 0x0054, 0x0020, 0x0042, 0x0045, 0x0047, 0x0049,
     0x004E, 0x0020, 0x003D, 0x003D, 0x003D, 0x000A]"

definition chunkPrompt_txt10 :: jsstring where
  "chunkPrompt_txt10 =
    [0x000A, 0x003D, 0x003D, 0x003D, 0x0020, 0x0044, 0x0049, 0x0046, 0x0046, 0x0020,
     0x0050, 0x0041, 0x0052, 0x0054, 0x0020, 0x0045, 0x004E, 0x0044, 0x0020, 0x003D,
     0x003D, 0x003D]"

definition mergePrompt_txt0 :: jsstring where
  "mergePrompt_txt0 =
    [0x4E0B, 0x9762, 0x662F, 0x63D0, 0x4EA4, 0x0020]"

definition mergePrompt_txt1 :: jsstring where
  "mergePrompt_txt1 =
    [0x0020, 0x7684, 0x5404, 0x7247, 0x6BB5, 0x5C0F, 0x7ED3, 0xFF0C, 0x8BF7, 0x5408,
     0x5E76, 0x4E3A, 0x002A, 0x002A, 0x5355, 0x6761, 0x63D0, 0x4EA4, 0x002A, 0x002A,
     0x7684, 0x6700, 0x7EC8, 0x6458, 0x8981, 0xFF08, 0x4E2D, 0x6587, 0xFF09, 0xFF0C,
     0x8F93, 0x51FA, 0x4EE5, 0x4E0B, 0x5C0F, 0x8282, 0xFF1A, 0x000A, 0x002D, 0x0020,
     0x53D8, 0x66F4, 0x6982, 0x8FF0, 0xFF08, 0x4E0D, 0x8D85, 0x8FC7, 0x0035, 0x6761,
     0x8981, 0x70B9, 0xFF09, 0x000A, 0x002D, 0x0020, 0x5F71, 0x54CD, 0x8303, 0x56F4,
     0xFF08, 0x6A21, 0x5757, 0x002F, 0x63A5, 0x53E3, 0x002F, 0x914D, 0x7F6E, 0xFF09,
     0x000A, 0x002D, 0x0020, 0x98CE, 0x9669, 0x4E0E, 0x56DE, 0x6EDA, 0x70B9, 0x000A,
     0x002D, 0x0020, 0x6D4B, 0x8BD5, 0x5EFA, 0x8BAE, 0x000A, 0x002D, 0x0020, 0x9762,
     0x5411, 0x7528, 0x6237, 0x7684, 0x53EF, 0x89C1, 0x5F71, 0x54CD, 0xFF08, 0x5982,
     0x6709, 0xFF09, 0x000A, 0x000A, 0x8BF7, 0x907F, 0x514D, 0x91CD, 0x590D, 0x3001,
     0x5408, 0x5E76, 0x540C, 0x7C7B, 0x9879, 0xFF0C, 0x6807, 0x6CE8, 0x201C, 0x53EF,
     0x80FD, 0x4E0D, 0x5B8C, 0x6574, 0x201D, 0x5F53, 0x67D0, 0x4E9B, 0x7247, 0x6BB5,
     0x7F3A, 0x5931, 0x6216, 0x88AB, 0x622A, 0x65AD, 0x3002, 0x000A, 0x000A, 0x003D,
     0x003D, 0x003D, 0x0020, 0x7247, 0x6BB5, 0x5C0F, 0x7ED3, 0x96C6, 0x5408, 0x0020,
     0x0042, 0x0045, 0x0047, 0x0049, 0x004E, 0x0020, 0x003D, 0x003D, 0x003D, 0x000A]"

definition mergePrompt_txt2 :: jsstring where
  "mergePrompt_txt2 =
    [0x000A, 0x003D, 0x003D, 0x003D, 0x0020, 0x7247, 0x6BB5, 0x5C0F, 0x7ED3, 0x96C6,
     0x5408, 0x0020, 0x0045, 0x004E, 0x0044, 0x0020, 0x003D, 0x003D, 0x003D]"

definition dailyPrompt_txt0 :: jsstring where
  "dailyPrompt_txt0 =
    [0x8BF7, 0x5C06, 0x4EE5, 0x4E0B, 0x201C, 0x5F53, 0x65E5, 0x5404, 0x63D0, 0x4EA4,
     0x6458, 0x8981, 0x201D, 0x6574, 0x5408, 0x6210, 0x002A, 0x002A, 0x5F53, 0x65E5,
     0x5F00, 0x53D1, 0x53D8, 0x66F4, 0x65E5, 0x62A5, 0xFF08, 0x4E2D, 0x6587, 0xFF09,
     0x002A, 0x002A, 0xFF0C, 0x8F93, 0x51FA, 0x7ED3, 0x6784, 0x5982, 0x4E0B, 0xFF1A,
     0x000A, 0x0023, 0x0020]"

definition dailyPrompt_txt1 :: jsstring where
  "dailyPrompt_txt1 =
    [0x0020, 0x5F00, 0x53D1, 0x53D8, 0x66F4, 0x65E5, 0x62A5, 0xFF08]"

definition dailyPrompt_txt2 :: jsstring where
  "dailyPrompt_txt2 =
    [0x0029, 0x000A, 0x0031, 0x002E, 0x0020, 0x4ECA, 0x65E5, 0x6982, 0x89C8, 0xFF08,
     0x4E0D, 0x8D85, 0x8FC7, 0x0035, 0x6761, 0xFF09, 0x000A, 0x0032, 0x002E, 0x0020,
     0x002A, 0x002A, 0x6309, 0x5206, 0x652F, 0x002A, 0x002A, 0x7684, 0x5173, 0x952E,
     0x6539, 0x52A8, 0x6E05, 0x5355, 0xFF08, 0x6BCF, 0x6761, 0x542B, 0x6A21, 0x5757,
     0x002F, 0x5F71, 0x54CD, 0x3001, 0x662F, 0x5426, 0x6F5C, 0x5728, 0x7834, 0x574F,
     0x6027, 0xFF09, 0x000A, 0x0033, 0x002E, 0x0020, 0x8DE8, 0x5206, 0x652F, 0x98CE,
     0x9669, 0x4E0E, 0x56DE, 0x6EDA, 0x7B56, 0x7565, 0xFF08, 0x5982, 0x540C, 0x4E00,
     0x63D0, 0x4EA4, 0x5728, 0x591A, 0x4E2A, 0x5206, 0x652F, 0x3001, 0x5B58, 0x5728,
     0x0020, 0x0063, 0x0068, 0x0065, 0x0072, 0x0072, 0x0079, 0x002D, 0x0070, 0x0069,
     0x0063, 0x006B, 0x002F, 0x0064, 0x0069, 0x0076, 0x0065, 0x0072, 0x0067, 0x0065,
     0x006E, 0x0063, 0x0065, 0xFF09, 0x000A, 0x0034, 0x002E, 0x0020, 0x5EFA, 0x8BAE,
     0x6D4B, 0x8BD5, 0x4E0E, 0x9A8C, 0x8BC1, 0x6E05, 0x5355, 0x000A, 0x0035, 0x002E,
     0x0020, 0x5176, 0x4ED6, 0x5907, 0x6CE8, 0xFF08, 0x5982, 0x91CD, 0x6784, 0x002F,
     0x4F9D, 0x8D56, 0x5347, 0x7EA7, 0x002F, 0x4EC5, 0x683C, 0x5F0F, 0x5316, 0xFF09,
     0x000A, 0x000A, 0x003D, 0x003D, 0x003D, 0x0020, 0x5F53, 0x65E5, 0x63D0, 0x4EA4,
     0x6458, 0x8981, 0x0020, 0x0042, 0x0045, 0x0047, 0x0049, 0x004E, 0x0020, 0x003D,
     0x003D, 0x003D, 0x000A]"

definition dailyPrompt_txt3 :: jsstring where
  "dailyPrompt_txt3 =
    [0x000A, 0x003D, 0x003D, 0x003D, 0x0020, 0x5F53, 0x65E5, 0x63D0, 0x4EA4, 0x6458,
     0x8981, 0x0020, 0x0045, 0x004E, 0x0044, 0x0020, 0x003D, 0x003D, 0x003D]"

definition zero_diff_summary :: jsstring where
  "zero_diff_summary =
    [0xFF08, 0x65E0, 0x6709, 0x6548, 0x4E1A, 0x52A1, 0x6539, 0x52A8, 0x6216, 0x6539,
     0x52A8, 0x5DF2, 0x88AB, 0x8FC7, 0x6EE4, 0xFF0C, 0x4F8B, 0x5982, 0x0020, 0x006C,
     0x006F, 0x0063, 0x006B, 0x0066, 0x0069, 0x006C, 0x0065, 0x002F, 0x6784, 0x5EFA,
     0x4EA7, 0x7269, 0x002F, 0x4E8C, 0x8FDB, 0x5236, 0xFF0C, 0x6216, 0x7A7A, 0x63D0,
     0x4EA4, 0xFF09]"

definition daily_fail_note :: jsstring where
  "daily_fail_note =
    [0xFF08, 0x5F53, 0x65E5, 0x6C47, 0x603B, 0x5931, 0x8D25, 0xFF0C, 0x4EE5, 0x4E0B,
     0x4E3A, 0x9010, 0x63D0, 0x4EA4, 0x539F, 0x59CB, 0x5C0F, 0x7ED3, 0x62FC, 0x63A5,
     0xFF09, 0x000A, 0x000A]"

definition comma_space :: jsstring where
  "comma_space = [0x002C, 0x0020]"

definition commitChunkPrompt :: "CommitMeta \<Rightarrow> nat \<Rightarrow> nat \<Rightarrow> jsstring \<Rightarrow> jsstring" where
  "commitChunkPrompt cm partIdx n_total patch =
     chunkPrompt_txt0 @ slice (sha cm) 0 7 @ chunkPrompt_txt1 @ title cm @ chunkPrompt_txt2
     @ num_str partIdx @ chunkPrompt_txt3 @ num_str n_total @ chunkPrompt_txt4 @ sha cm
     @ chunkPrompt_txt5 @ title cm @ chunkPrompt_txt6 @ author cm @ chunkPrompt_txt7
     @ join comma_space (branches cm) @ chunkPrompt_txt8 @ url cm @ chunkPrompt_txt9
     @ patch @ chunkPrompt_txt10"

text \<open>The label put before the summary of part \<open>i\<close> (counted from 0) in the merge prompt:
  U+3010, U+7247, U+6BB5, the number \<open>i + 1\<close>, U+3011 and a line feed.\<close>

definition part_label :: "nat \<Rightarrow> jsstring" where
  "part_label i = [0x3010, 0x7247, 0x6BB5] @ num_str (i + 1) @ [0x3011, 0x000A]"

text \<open>The value \<open>joined\<close> of \<open>commitMergePrompt\<close>:
  \<open>parts.map((p, i) => label(i + 1) + "\n" + p).join("\n\n")\<close>.\<close>

definition joined :: "jsstring list \<Rightarrow> jsstring" where
  "joined parts = join blank_line (map (\<lambda>(i, p). part_label i @ p) (enumerate 0 parts))"

definition commitMergePrompt :: "CommitMeta \<Rightarrow> jsstring list \<Rightarrow> jsstring" where
  "commitMergePrompt cm parts =
     mergePrompt_txt0 @ slice (sha cm) 0 7 @ mergePrompt_txt1 @ joined parts @ mergePrompt_txt2"

record commit_item =
  meta :: CommitMeta
  summary :: jsstring

definition dash_sep :: jsstring where
  "dash_sep = [0x0020, 0x2014, 0x0020]"

definition rule_sep :: jsstring where
  "rule_sep = [0x000A, 0x000A, 0x002D, 0x002D, 0x002D, 0x000A, 0x000A]"

definition daily_line :: "commit_item \<Rightarrow> jsstring" where
  "daily_line it =
     [0x005B] @ slice (sha (meta it)) 0 7 @ [0x005D, 0x0020] @ title (meta it) @ dash_sep
     @ author (meta it) @ dash_sep @ join comma_space (branches (meta it)) @ [0x000A]
     @ summary it"

definition dailyMergePrompt :: "jsstring \<Rightarrow> commit_item list \<Rightarrow> jsstring \<Rightarrow> jsstring" where
  "dailyMergePrompt dateLabel items repo =
     dailyPrompt_txt0 @ dateLabel @ dailyPrompt_txt1 @ repo @ dailyPrompt_txt2
     @ join rule_sep (map daily_line items) @ dailyPrompt_txt3"

text \<open>The two placeholders of the chunk tier, for the part at position \<open>i\<close> (counted from 0):
  U+FF08, U+7247, U+6BB5, the number \<open>i + 1\<close>, then either the text saying that the
  summary is empty, or the text saying that the call failed followed by the reason; both
  end with U+FF09.\<close>

definition empty_placeholder :: "nat \<Rightarrow> jsstring" where
  "empty_placeholder i =
     [0xFF08, 0x7247, 0x6BB5] @ num_str (i + 1) @ [0x6458, 0x8981, 0x4E3A, 0x7A7A, 0xFF09]"

definition failed_placeholder :: "nat \<Rightarrow> jsstring \<Rightarrow> jsstring" where
  "failed_placeholder i reason =
     [0xFF08, 0x7247, 0x6BB5] @ num_str (i + 1) @ [0x8C03, 0x7528, 0x5931, 0x8D25, 0xFF1A]
     @ reason @ [0xFF09]"

section \<open>The three-tier reduction\<close>

text \<open>A \<open>chat\<close> call: the state is the list of the prompts sent so far.\<close>

definition chat :: "env \<Rightarrow> jsstring list \<Rightarrow> jsstring \<Rightarrow> chat_result \<times> jsstring list" where
  "chat e calls prompt = (reply e (length calls) prompt, calls @ [prompt])"

text \<open>What the body of the chunk loop pushes for the part at position \<open>i\<close>.\<close>

definition part_summary :: "nat \<Rightarrow> chat_result \<Rightarrow> jsstring" where
  "part_summary i r =
     (case r of
        Resolved content \<Rightarrow> (if content \<noteq> [] then content else empty_placeholder i)
      | Rejected reason \<Rightarrow> failed_placeholder i reason)"

text \<open>The loop \<open>for (let i = 0; i < chunks.length; i++)\<close>.\<close>

function chunk_tier ::
  "env \<Rightarrow> CommitMeta \<Rightarrow> jsstring list \<Rightarrow> nat \<Rightarrow> jsstring list \<Rightarrow> jsstring list
   \<Rightarrow> jsstring list \<times> jsstring list" where
  "chunk_tier e cm chunks i partSummaries calls =
     (if i < length chunks
      then (let prompt = commitChunkPrompt cm (i + 1) (length chunks) (chunks ! i);
                (r, calls') = chat e calls prompt
            in chunk_tier e cm chunks (i + 1) (partSummaries @ [part_summary i r]) calls')
      else (partSummaries, calls))"
  by pat_completeness auto
termination
  by (relation "measure (\<lambda>(e, cm, chunks, i, ps, calls). length chunks - i)") auto

declare chunk_tier.simps [simp del]

datatype abort = Uncaught | NonTermination

text \<open>The body of \<open>for (const meta of commitMetas)\<close>: the pushed item and the calls made.
  An exception of \<open>getDiff\<close> is not caught in the loop and ends the run.\<close>

definition summarize_commit ::
  "env \<Rightarrow> config \<Rightarrow> CommitMeta \<Rightarrow> jsstring list \<Rightarrow> abort + (commit_item \<times> jsstring list)" where
  "summarize_commit e cfg cm calls =
     (case getDiff e (sha cm) of
        None \<Rightarrow> Inl Uncaught
      | Some fullPatch \<Rightarrow>
          (if fullPatch = [] \<or> trim fullPatch = []
           then Inr (\<lparr> meta = cm, summary = zero_diff_summary \<rparr>, calls)
           else (let fileParts = splitPatchByFile fullPatch
                 in (case chunkBySize fileParts (DIFF_CHUNK_MAX_CHARS cfg) of
                       None \<Rightarrow> Inl NonTermination
                     | Some chunks \<Rightarrow>
                         (let (partSummaries, calls1) = chunk_tier e cm chunks 0 [] calls;
                              (r, calls2) = chat e calls1 (commitMergePrompt cm partSummaries);
                              merged = (case r of
                                          Resolved s \<Rightarrow> s
                                        | Rejected reason \<Rightarrow> join blank_line partSummaries)
                          in Inr (\<lparr> meta = cm, summary = merged \<rparr>, calls2))))))"

fun perCommit_loop ::
  "env \<Rightarrow> config \<Rightarrow> CommitMeta list \<Rightarrow> commit_item list \<Rightarrow> jsstring list
   \<Rightarrow> abort + (commit_item list \<times> jsstring list)" where
  "perCommit_loop e cfg [] perCommitFinal calls = Inr (perCommitFinal, calls)"
| "perCommit_loop e cfg (cm # cms) perCommitFinal calls =
     (case summarize_commit e cfg cm calls of
        Inl a \<Rightarrow> Inl a
      | Inr (it, calls') \<Rightarrow> perCommit_loop e cfg cms (perCommitFinal @ [it]) calls')"

definition repository :: jsstring where
  "repository = [0x72, 0x65, 0x70, 0x6F, 0x73, 0x69, 0x74, 0x6F, 0x72, 0x79]"

text \<open>The line of one commit in the fallback of the daily tier (no author).\<close>

definition fallback_line :: "commit_item \<Rightarrow> jsstring" where
  "fallback_line it =
     [0x005B] @ slice (sha (meta it)) 0 7 @ [0x005D, 0x0020] @ title (meta it) @ dash_sep
     @ join comma_space (branches (meta it)) @ [0x000A] @ summary it"

definition daily_tier ::
  "env \<Rightarrow> config \<Rightarrow> commit_item list \<Rightarrow> jsstring list \<Rightarrow> jsstring \<times> jsstring list" where
  "daily_tier e cfg perCommitFinal calls =
     (let (r, calls') =
            chat e calls
              (dailyMergePrompt (todayLabel e) perCommitFinal
                 (if REPO cfg \<noteq> [] then REPO cfg else repository))
      in (case r of
            Resolved daily \<Rightarrow> daily
          | Rejected reason \<Rightarrow>
              daily_fail_note @ join rule_sep (map fallback_line perCommitFinal),
          calls'))"

text \<open>The run up to the text handed to \<open>postToLark\<close>: the two exits of the script, an abort,
  or the per-commit items, the daily text and the prompts sent.\<close>

datatype outcome =
    MissingApiKey
  | NoCommits
  | Aborted abort
  | Report "commit_item list" jsstring "jsstring list"

definition run :: "env \<Rightarrow> config \<Rightarrow> outcome" where
  "run e cfg =
     (if OPENAI_API_KEY cfg = [] then MissingApiKey
      else if commitShas e cfg = [] then NoCommits
      else (case commitMetas e cfg of
              None \<Rightarrow> Aborted Uncaught
            | Some metas \<Rightarrow>
                (case perCommit_loop e cfg metas [] [] of
                   Inl a \<Rightarrow> Aborted a
                 | Inr (perCommitFinal, calls) \<Rightarrow>
                     (let (daily, calls') = daily_tier e cfg perCommitFinal calls
                      in Report perCommitFinal daily calls'))))"

section \<open>Notions used to state the properties\<close>

text \<open>The consecutive slices of \<open>limit\<close> elements of a text, the last one shorter when the
  length is no multiple of \<open>limit\<close>.\<close>

function slices_of :: "nat \<Rightarrow> 'a list \<Rightarrow> 'a list list" where
  "slices_of limit p =
     (if limit = 0 \<or> p = [] then [] else take limit p # slices_of limit (drop limit p))"
  by pat_completeness auto
termination
  by (relation "measure (\<lambda>(limit, p). length p)") auto

declare slices_of.simps [simp del]

text \<open>What a unit contributes to the chunks: itself, or its slices when it is longer than
  the limit.\<close>

definition pieces :: "nat \<Rightarrow> jsstring \<Rightarrow> jsstring list" where
  "pieces limit p = (if length p > limit then slices_of limit p else [p])"

text \<open>A list without its repetitions, every element at the place of its first
  occurrence.\<close>

fun first_seen :: "'a list \<Rightarrow> 'a list" where
  "first_seen [] = []"
| "first_seen (x # xs) = x # first_seen (filter (\<lambda>y. y \<noteq> x) xs)"

text \<open>
  A small run used for the concrete instances below. Two branches, \<open>m\<close> and \<open>d\<close>; the
  log of \<open>m\<close> lists the commits \<open>a\<close>, \<open>b\<close>, the log of \<open>d\<close> lists \<open>b\<close>, \<open>c\<close>, and the log of all
  refs lists \<open>a\<close>, \<open>x\<close>, \<open>b\<close>, \<open>c\<close>, \<open>a\<close>. The diff of \<open>a\<close> is empty, the diff of \<open>b\<close> has one
  file and the diff of \<open>c\<close> has two, which do not fit into one chunk of three code units.
  The completion endpoint resolves its first two calls with the empty text and its
  fourth call with the text \<open>S\<close>; it rejects every other call with the reason \<open>E\<close>.
\<close>

definition example_env :: env where
  "example_env =
     \<lparr> for_each_ref_out = [0x6D, 0x000A, 0x64, 0x000A],
       log_branch_out = (\<lambda>rb. if rb = [0x6D] then [0x61, 0x000A, 0x62]
                               else [0x62, 0x000A, 0x63]),
       log_all_out = [0x61, 0x000A, 0x78, 0x000A, 0x62, 0x000A, 0x63, 0x000A, 0x61],
       show_title_out = (\<lambda>s. Some [0x74]),
       show_author_out = (\<lambda>s. Some [0x75]),
       rev_list_out = (\<lambda>s. s @ [0x0020, 0x70]),
       hash_object_out = Some [0x68],
       diff_out = (\<lambda>b s. if s = [0x61] then []
                          else if s = [0x62] then diff_git @ [0x000A, 0x002B, 0x79]
                          else diff_git @ [0x000A, 0x002B, 0x79, 0x000A] @ diff_git
                               @ [0x000A, 0x002B, 0x7A]),
       reply = (\<lambda>n p. if n < 2 then Resolved []
                        else if n = 3 then Resolved [0x53]
                        else Rejected [0x45]),
       todayLabel = [0x44] \<rparr>"

definition example_config :: config where
  "example_config =
     \<lparr> OPENAI_API_KEY = [0x6B], REPO = [], PER_BRANCH_LIMIT = 200,
       DIFF_CHUNK_MAX_CHARS = 3 \<rparr>"

definition example_meta :: "jsstring \<Rightarrow> jsstring list \<Rightarrow> CommitMeta" where
  "example_meta s bs =
     \<lparr> sha = s, title = [0x74], author = [0x75], url = serverUrl @ commit_path @ s,
       branches = bs \<rparr>"

text \<open>The prompts sent before the daily tier in the example run, and the items it
  collects.\<close>

definition example_calls :: "jsstring list" where
  "example_calls =
     [commitChunkPrompt (example_meta [0x62] [[0x64], [0x6D]]) 1 1 [0x002B, 0x79],
      commitMergePrompt (example_meta [0x62] [[0x64], [0x6D]]) [empty_placeholder 0],
      commitChunkPrompt (example_meta [0x63] [[0x64]]) 1 2 [0x002B, 0x79],
      commitChunkPrompt (example_meta [0x63] [[0x64]]) 2 2 [0x002B, 0x7A],
      commitMergePrompt (example_meta [0x63] [[0x64]]) [failed_placeholder 0 [0x45], [0x53]]]"

definition example_items :: "commit_item list" where
  "example_items =
     [\<lparr> meta = example_meta [0x61] [[0x6D]], summary = zero_diff_summary \<rparr>,
      \<lparr> meta = example_meta [0x62] [[0x64], [0x6D]], summary = [] \<rparr>,
      \<lparr> meta = example_meta [0x63] [[0x64]],
        summary = failed_placeholder 0 [0x45] @ blank_line @ [0x53] \<rparr>]"




section \<open>The chunker\<close>

lemma slices_of_bound: "c \<in> set (slices_of limit p) \<Longrightarrow> length c \<le> limit"
  by (induction limit p rule: slices_of.induct) (subst (asm) slices_of.simps, auto split: if_splits)

lemma slices_of_nonempty: "[] \<notin> set (slices_of limit p)"
  by (induction limit p rule: slices_of.induct) (subst slices_of.simps, auto)

lemma concat_slices_of: "0 < limit \<Longrightarrow> concat (slices_of limit p) = p"
  by (induction limit p rule: slices_of.induct) (subst slices_of.simps, auto)

lemma slice_loop_slices:
  "0 < limit \<Longrightarrow> slice_loop p i limit out = Some (out @ slices_of limit (drop i p))"
proof (induction "length p - i" arbitrary: i out rule: less_induct)
  case less
  show ?case
  proof (cases "i < length p")
    case True
    with less.prems have "length p - (i + limit) < length p - i" by arith
    from less.hyps [OF this less.prems]
    have "slice_loop p (i + limit) limit (out @ [slice p i (i + limit)])
            = Some ((out @ [slice p i (i + limit)]) @ slices_of limit (drop (i + limit) p))" .
    moreover have "slices_of limit (drop i p)
            = take limit (drop i p) # slices_of limit (drop (i + limit) p)"
      using True less.prems by (subst slices_of.simps) (simp add: add.commute)
    ultimately show ?thesis
      using True by (subst slice_loop.simps) (simp add: slice_def)
  next
    case False
    then show ?thesis
      by (subst slice_loop.simps) (simp add: slices_of.simps)
  qed
qed

lemma chunk_loop_bounded:
  "0 < limit \<Longrightarrow> length buf \<le> limit \<Longrightarrow> \<forall>c\<in>set out. length c \<le> limit \<Longrightarrow>
   \<exists>res. chunk_loop limit ps out buf = Some res \<and> (\<forall>c\<in>set res. length c \<le> limit)"
proof (induction ps arbitrary: out buf)
  case Nil
  then show ?case by simp
next
  case (Cons p ps)
  show ?case
  proof (cases "length (if buf \<noteq> [] then buf @ blank_line @ p else p) > limit")
    case over: True
    let ?out1 = "if buf \<noteq> [] then out @ [buf] else out"
    have out1: "\<forall>c\<in>set ?out1. length c \<le> limit"
      using Cons.prems by auto
    show ?thesis
    proof (cases "length p > limit")
      case True
      have sl: "slice_loop p 0 limit ?out1 = Some (?out1 @ slices_of limit p)"
        using slice_loop_slices [OF Cons.prems(1), of p 0 ?out1] by simp
      have "\<forall>c\<in>set (?out1 @ slices_of limit p). length c \<le> limit"
        using out1 slices_of_bound by auto
      from Cons.IH [OF Cons.prems(1) _ this, of "[]"]
      show ?thesis using over True sl by (simp add: Let_def)
    next
      case False
      then have "length p \<le> limit" by simp
      from Cons.IH [OF Cons.prems(1) this out1]
      show ?thesis using over False by (simp add: Let_def)
    qed
  next
    case False
    then have "length (if buf \<noteq> [] then buf @ blank_line @ p else p) \<le> limit" by simp
    from Cons.IH [OF Cons.prems(1) this Cons.prems(3)]
    show ?thesis using False by (simp add: Let_def)
  qed
qed

lemma join_Cons: "join s (x # xs) = (if xs = [] then x else x @ s @ join s xs)"
  by (cases xs) simp_all

lemma join_snoc: "xs \<noteq> [] \<Longrightarrow> join s (xs @ [p]) = join s xs @ s @ p"
  by (induction s xs rule: join.induct) (simp_all add: join_Cons)

lemma join_nonempty: "xs \<noteq> [] \<Longrightarrow> hd xs \<noteq> [] \<Longrightarrow> join s xs \<noteq> []"
  by (cases xs) (simp_all add: join_Cons)

lemma join_singletons: "map (join s) (map (\<lambda>x. [x]) xs) = xs"
  by (induction xs) simp_all

lemma concat_singletons: "concat (map (\<lambda>x. [x]) xs) = xs"
  by (induction xs) simp_all

lemma chunk_loop_groups:
  assumes "0 < limit"
  shows "bufg = [] \<or> hd bufg \<noteq> [] \<Longrightarrow>
    \<exists>groups. chunk_loop limit ps out (join blank_line bufg)
                = Some (out @ map (join blank_line) groups)
      \<and> [] \<notin> set groups
      \<and> filter (\<lambda>u. u \<noteq> []) (concat groups)
          = filter (\<lambda>u. u \<noteq> []) (bufg @ concat (map (pieces limit) ps))
      \<and> ([] \<notin> set ps \<longrightarrow> concat groups = bufg @ concat (map (pieces limit) ps))"
proof (induction ps arbitrary: out bufg)
  case Nil
  show ?case
  proof (cases "bufg = []")
    case True
    then show ?thesis by (intro exI [of _ "[]"]) simp
  next
    case False
    with Nil have "join blank_line bufg \<noteq> []" by (simp add: join_nonempty)
    with False show ?thesis by (intro exI [of _ "[bufg]"]) simp
  qed
next
  case (Cons p ps)
  let ?buf = "join blank_line bufg"
  let ?cand = "if ?buf \<noteq> [] then ?buf @ blank_line @ p else p"
  have buf_ne: "?buf \<noteq> [] \<longleftrightarrow> bufg \<noteq> []"
    using Cons.prems join_nonempty [of bufg blank_line] by auto
  let ?out1 = "if ?buf \<noteq> [] then out @ [?buf] else out"
  let ?pre = "if bufg \<noteq> [] then [bufg] else []"
  have out1: "?out1 = out @ map (join blank_line) ?pre"
    using buf_ne by simp
  have pre_ne: "[] \<notin> set ?pre" by simp
  have pre_cat: "concat ?pre = bufg" by simp
  show ?case
  proof (cases "length ?cand > limit")
    case over: True
    show ?thesis
    proof (cases "length p > limit")
      case True
      have sl: "slice_loop p 0 limit ?out1 = Some (?out1 @ slices_of limit p)"
        using slice_loop_slices [OF assms, of p 0 ?out1] by simp
      have step: "chunk_loop limit (p # ps) out ?buf
                    = chunk_loop limit ps (?out1 @ slices_of limit p) (join blank_line [])"
        using over True sl by (simp add: Let_def)
      from Cons.IH [of "[]" "?out1 @ slices_of limit p"]
      obtain g where g: "chunk_loop limit ps (?out1 @ slices_of limit p) (join blank_line [])
                           = Some ((?out1 @ slices_of limit p) @ map (join blank_line) g)"
        "[] \<notin> set g"
        "filter (\<lambda>u. u \<noteq> []) (concat g)
           = filter (\<lambda>u. u \<noteq> []) (concat (map (pieces limit) ps))"
        "[] \<notin> set ps \<longrightarrow> concat g = concat (map (pieces limit) ps)"
        by auto
      let ?groups = "?pre @ map (\<lambda>x. [x]) (slices_of limit p) @ g"
      have o1: "(?out1 @ slices_of limit p) @ map (join blank_line) g
                  = out @ map (join blank_line) ?groups"
        using buf_ne by (simp add: comp_def)
      have "chunk_loop limit (p # ps) out ?buf = Some (out @ map (join blank_line) ?groups)"
        by (simp only: step g(1) o1)
      moreover have "[] \<notin> set ?groups"
        using g(2) by auto
      moreover have "concat ?groups = bufg @ pieces limit p @ concat g"
        using True by (simp add: pieces_def concat_singletons)
      ultimately show ?thesis
        using g(3,4) by (intro exI [of _ ?groups]) simp
    next
      case False
      have step: "chunk_loop limit (p # ps) out ?buf = chunk_loop limit ps ?out1 p"
        using over False by (simp add: Let_def)
      let ?bufg' = "if p = [] then [] else [p]"
      have jp: "join blank_line ?bufg' = p" by simp
      have inv: "?bufg' = [] \<or> hd ?bufg' \<noteq> []" by simp
      from Cons.IH [OF inv, of ?out1, unfolded jp]
      obtain g where g: "chunk_loop limit ps ?out1 p
                           = Some (?out1 @ map (join blank_line) g)"
        "[] \<notin> set g"
        "filter (\<lambda>u. u \<noteq> []) (concat g)
           = filter (\<lambda>u. u \<noteq> []) (?bufg' @ concat (map (pieces limit) ps))"
        "[] \<notin> set ps \<longrightarrow> concat g = ?bufg' @ concat (map (pieces limit) ps)"
        by blast
      let ?groups = "?pre @ g"
      have o1: "?out1 @ map (join blank_line) g = out @ map (join blank_line) ?groups"
        using buf_ne by simp
      have "chunk_loop limit (p # ps) out ?buf = Some (out @ map (join blank_line) ?groups)"
        by (simp only: step g(1) o1)
      moreover have "[] \<notin> set ?groups"
        using g(2) by auto
      moreover have "pieces limit p = [p]"
        using False by (simp add: pieces_def)
      ultimately show ?thesis
        using g(3,4) by (intro exI [of _ ?groups]) auto
    qed
  next
    case False
    have step: "chunk_loop limit (p # ps) out ?buf = chunk_loop limit ps out ?cand"
      using False by (simp add: Let_def)
    let ?bufg' = "if bufg = [] then (if p = [] then [] else [p]) else bufg @ [p]"
    have cand: "?cand = join blank_line ?bufg'"
      using buf_ne by (simp add: join_snoc)
    have inv: "?bufg' = [] \<or> hd ?bufg' \<noteq> []"
      using Cons.prems by auto
    from Cons.IH [OF inv, of out]
    obtain g where g: "chunk_loop limit ps out (join blank_line ?bufg')
                         = Some (out @ map (join blank_line) g)"
      "[] \<notin> set g"
      "filter (\<lambda>u. u \<noteq> []) (concat g)
         = filter (\<lambda>u. u \<noteq> []) (?bufg' @ concat (map (pieces limit) ps))"
      "[] \<notin> set ps \<longrightarrow> concat g = ?bufg' @ concat (map (pieces limit) ps)"
      by blast
    have "length p \<le> limit"
      using False by (auto split: if_splits)
    then have pc: "pieces limit p = [p]"
      by (simp add: pieces_def)
    have "chunk_loop limit (p # ps) out ?buf = Some (out @ map (join blank_line) g)"
      unfolding step cand using g(1) .
    then show ?thesis
      using g(2,3,4) pc by (intro exI [of _ g]) auto
  qed
qed

lemma chunk_loop_skip_empty:
  "chunk_loop limit ps out [] = chunk_loop limit (dropWhile (\<lambda>p. p = []) ps) out []"
  by (induction ps) (simp_all add: Let_def)

lemma chunk_loop_fits:
  "buf \<noteq> [] \<Longrightarrow> length (join blank_line (buf # ps)) \<le> limit \<Longrightarrow>
   chunk_loop limit ps out buf = Some (out @ [join blank_line (buf # ps)])"
proof (induction ps arbitrary: buf)
  case Nil
  then show ?case by simp
next
  case (Cons p ps)
  let ?cand = "buf @ blank_line @ p"
  have eq: "join blank_line (?cand # ps) = join blank_line (buf # p # ps)"
    by (simp add: join_Cons)
  have "length ?cand \<le> length (join blank_line (buf # p # ps))"
    by (simp add: join_Cons)
  with Cons.prems have fits: "length ?cand \<le> limit" by simp
  have "?cand \<noteq> []" using Cons.prems by simp
  from Cons.IH [OF this, unfolded eq, OF Cons.prems(2)]
  show ?case using fits Cons.prems(1) by (simp add: Let_def eq)
qed

lemma chunkBySize_length_25:
  assumes "length (p::jsstring) = 25"
  shows "chunkBySize [p] 10 = Some [take 10 p, take 10 (drop 10 p), drop 20 p]"
proof -
  have "slice_loop p 0 10 [] = Some [take 10 p, take 10 (drop 10 p), drop 20 p]"
    using assms by (simp add: slice_loop.simps slice_def)
  then show ?thesis
    using assms by (simp add: chunkBySize_def Let_def)
qed

text \<open>
  C1: for every sequence of units and every positive limit, \<open>chunkBySize\<close> returns, and
  every chunk it emits has at most \<open>limit\<close> code units; a single unit of length 25 packed
  with limit 10 gives exactly three chunks, of lengths 10, 10 and 5.
\<close>

theorem chunkBySize_within_limit:
  assumes "0 < limit"
  shows "(\<exists>out. chunkBySize parts limit = Some out \<and> (\<forall>c\<in>set out. length c \<le> limit))
       \<and> (\<forall>p. length p = 25 \<longrightarrow>
             (\<exists>out. chunkBySize [p] 10 = Some out \<and> map length out = [10, 10, 5]))"
proof
  show "\<exists>out. chunkBySize parts limit = Some out \<and> (\<forall>c\<in>set out. length c \<le> limit)"
    unfolding chunkBySize_def by (rule chunk_loop_bounded [OF assms]) simp_all
  show "\<forall>p. length p = 25 \<longrightarrow>
          (\<exists>out. chunkBySize [p] 10 = Some out \<and> map length out = [10, 10, 5])"
    by (simp add: chunkBySize_length_25)
qed

theorem chunkBySize_within_limit_witness:
  "\<exists>out. chunkBySize [replicate 25 0x0061] 10 = Some out
     \<and> (\<forall>c\<in>set out. length c \<le> 10) \<and> map length out = [10, 10, 5]"
proof -
  have pos: "0 < (10::nat)" by simp
  have len: "length (replicate 25 (0x0061::16 word)) = 25" by simp
  from chunkBySize_within_limit [OF pos, of "[replicate 25 0x0061]"] len
  show ?thesis by fastforce
qed

text \<open>
  C7: \<open>chunkBySize\<close> keeps the order of the units. For a positive limit, every emitted
  chunk is the blank-line join of a non-empty group of pieces, and the pieces of all
  groups, read in emission order, are the units in their input order, a unit longer than
  the limit standing as its consecutive slices. An empty unit can vanish (it leaves no
  text when the buffer is empty); when no unit is empty the two sequences are equal.
\<close>

theorem chunkBySize_order_preserving:
  assumes "0 < limit"
  shows "\<exists>groups. chunkBySize parts limit = Some (map (join blank_line) groups)
      \<and> [] \<notin> set groups
      \<and> filter (\<lambda>u. u \<noteq> []) (concat groups)
          = filter (\<lambda>u. u \<noteq> []) (concat (map (pieces limit) parts))
      \<and> ([] \<notin> set parts \<longrightarrow> concat groups = concat (map (pieces limit) parts))"
  using chunk_loop_groups [OF assms, of "[]" parts "[]"] by (simp add: chunkBySize_def)

theorem chunkBySize_order_preserving_witness:
  "\<exists>groups. chunkBySize [[0x0061], [0x0062, 0x0063, 0x0064, 0x0065, 0x0066], [0x0067]] 4
               = Some (map (join blank_line) groups)
     \<and> concat groups = [[0x0061], [0x0062, 0x0063, 0x0064, 0x0065], [0x0066], [0x0067]]"
proof -
  have pos: "0 < (4::nat)" by simp
  have sl: "slices_of 4 [0x0062, 0x0063, 0x0064, 0x0065, 0x0066 :: 16 word]
              = [[0x0062, 0x0063, 0x0064, 0x0065], [0x0066]]"
    by (simp add: slices_of.simps)
  from chunkBySize_order_preserving
         [OF pos, of "[[0x0061], [0x0062, 0x0063, 0x0064, 0x0065, 0x0066], [0x0067]]"]
  show ?thesis by (auto simp: pieces_def sl)
qed

text \<open>
  C8, as stated: a non-empty sequence of units whose total length fits within one limit
  is packed into exactly one chunk. Two units of five code units have total length 10,
  yet with limit 10 they are packed into two chunks: the blank line between them counts.
\<close>

theorem chunkBySize_total_fits_counterexample:
  "sum_list (map length [replicate 5 (0x0061::16 word), replicate 5 0x0062]) \<le> 10
   \<and> chunkBySize [replicate 5 0x0061, replicate 5 0x0062] 10
       = Some [replicate 5 0x0061, replicate 5 0x0062]"
  by (simp add: chunkBySize_def Let_def blank_line_def)

text \<open>
  C8, amended: when some unit is non-empty and the units from the first non-empty one
  on, joined with a blank line between neighbours, fit within the limit, \<open>chunkBySize\<close>
  produces exactly one chunk, that joined text.
\<close>

theorem chunkBySize_single_chunk:
  assumes "dropWhile (\<lambda>p. p = []) parts \<noteq> []"
    and "length (join blank_line (dropWhile (\<lambda>p. p = []) parts)) \<le> limit"
  shows "chunkBySize parts limit = Some [join blank_line (dropWhile (\<lambda>p. p = []) parts)]"
proof -
  obtain p ps where d: "dropWhile (\<lambda>p. p = []) parts = p # ps"
    using assms(1) by (cases "dropWhile (\<lambda>p. p = []) parts") auto
  have p: "p \<noteq> []"
    using hd_dropWhile [of "\<lambda>p. p = []" parts] assms(1) d by auto
  have "length p \<le> length (join blank_line (p # ps))"
    by (simp add: join_Cons)
  with assms(2) d have fits: "length p \<le> limit" by simp
  have "chunkBySize parts limit = chunk_loop limit (p # ps) [] []"
    unfolding chunkBySize_def by (subst chunk_loop_skip_empty) (simp add: d)
  also have "\<dots> = chunk_loop limit ps [] p"
    using fits by (simp add: Let_def)
  also have "\<dots> = Some ([] @ [join blank_line (p # ps)])"
    using p assms(2) d by (intro chunk_loop_fits) simp_all
  finally show ?thesis by (simp add: d)
qed

theorem chunkBySize_single_chunk_witness:
  "chunkBySize [[], [0x0061], [0x0062]] 4 = Some [[0x0061, 0x000A, 0x000A, 0x0062]]"
  using chunkBySize_single_chunk [of "[[], [0x0061], [0x0062]]" 4]
  by (simp add: blank_line_def)

section \<open>The collector\<close>

lemma map_of_map_set: "map_of (map_set k v m) = (map_of m)(k \<mapsto> v)"
  by (induction m) auto

lemma map_set_keys: "fst ` set (map_set k v m) = insert k (fst ` set m)"
  by (simp add: dom_map_of_conv_image_fst [symmetric] map_of_map_set)

lemma map_set_distinct: "distinct (map fst m) \<Longrightarrow> distinct (map fst (map_set k v m))"
  by (induction m) (auto simp: map_set_keys)

lemma branchToCommits_loop_lookup:
  "map_of (branchToCommits_loop e lim rbs m) rb
     = (if rb \<in> set rbs then Some (slice_from (sh_lines (log_branch_out e rb)) (- lim))
        else map_of m rb)"
  by (induction rbs arbitrary: m) (auto simp: map_of_map_set Let_def)

lemma branchToCommits_loop_distinct:
  "distinct (map fst m) \<Longrightarrow> distinct (map fst (branchToCommits_loop e lim rbs m))"
  by (induction rbs arbitrary: m) (auto simp: map_set_distinct Let_def)

lemma branchToCommits_lookup:
  "map_of (branchToCommits e cfg) rb
     = (if rb \<in> set (remoteBranches e)
        then Some (slice_from (sh_lines (log_branch_out e rb)) (- PER_BRANCH_LIMIT cfg))
        else None)"
  by (simp add: branchToCommits_def branchToCommits_loop_lookup)

lemma branchToCommits_entries:
  "(rb, shas) \<in> set (branchToCommits e cfg) \<longleftrightarrow> map_of (branchToCommits e cfg) rb = Some shas"
  using branchToCommits_loop_distinct [of "[]" e "PER_BRANCH_LIMIT cfg" "remoteBranches e"]
  by (simp add: branchToCommits_def)

lemma set_add_set: "set (set_add x s) = insert x (set s)"
  by (auto simp: set_add_def)

lemma set_add_distinct: "distinct s \<Longrightarrow> distinct (set_add x s)"
  by (auto simp: set_add_def)

lemma set_add_nonempty: "set_add x s \<noteq> []"
  by (auto simp: set_add_def)

lemma set_add_idem: "set_add x (set_add x s) = set_add x s"
  by (auto simp: set_add_def)

lemma inner_lookup:
  "map_of (shaToBranches_inner rb shas m) s
     = (if s \<in> set shas then Some (set_add rb (get_or_empty m s)) else map_of m s)"
proof (induction shas arbitrary: m)
  case Nil
  show ?case by simp
next
  case (Cons s0 shas)
  define m1 where "m1 = (if \<not> map_has m s0 then map_set s0 [] m else m)"
  define m2 where "m2 = map_set s0 (set_add rb (get_or_empty m s0)) m1"
  have m1: "map_of m1 s0 = Some (get_or_empty m s0)"
    by (auto simp: m1_def map_has_def get_or_empty_def map_of_map_set)
  have step: "shaToBranches_inner rb (s0 # shas) m = shaToBranches_inner rb shas m2"
    using m1 by (simp add: Let_def m1_def [symmetric] m2_def)
  have m2: "map_of m2 = (map_of m)(s0 \<mapsto> set_add rb (get_or_empty m s0))"
    by (auto simp: m2_def m1_def map_of_map_set)
  have g2: "get_or_empty m2 t
              = (if t = s0 then set_add rb (get_or_empty m s0) else get_or_empty m t)" for t
    by (simp add: get_or_empty_def m2)
  show ?case
    unfolding step Cons.IH g2 m2 by (simp add: set_add_idem)
qed

lemma inner_has:
  "map_has (shaToBranches_inner rb shas m) s \<longleftrightarrow> map_has m s \<or> s \<in> set shas"
  unfolding map_has_def inner_lookup by simp

lemma inner_get:
  "get_or_empty (shaToBranches_inner rb shas m) s
     = (if s \<in> set shas then set_add rb (get_or_empty m s) else get_or_empty m s)"
  unfolding get_or_empty_def inner_lookup by simp

lemma loop_has:
  "map_has (shaToBranches_loop entries m) s
     \<longleftrightarrow> map_has m s \<or> (\<exists>rb shas. (rb, shas) \<in> set entries \<and> s \<in> set shas)"
  by (induction entries m rule: shaToBranches_loop.induct) (auto simp: inner_has)

lemma loop_set:
  "set (get_or_empty (shaToBranches_loop entries m) s)
     = set (get_or_empty m s) \<union> {rb. \<exists>shas. (rb, shas) \<in> set entries \<and> s \<in> set shas}"
  by (induction entries m rule: shaToBranches_loop.induct)
     (auto simp: inner_get set_add_set split: if_splits)

lemma loop_distinct:
  "\<forall>s. distinct (get_or_empty m s)
   \<Longrightarrow> distinct (get_or_empty (shaToBranches_loop entries m) s)"
  by (induction entries m arbitrary: s rule: shaToBranches_loop.induct)
     (auto simp: inner_get set_add_distinct)

lemma loop_nonempty:
  "\<forall>s. map_has m s \<longrightarrow> get_or_empty m s \<noteq> []
   \<Longrightarrow> map_has (shaToBranches_loop entries m) s
   \<Longrightarrow> get_or_empty (shaToBranches_loop entries m) s \<noteq> []"
  by (induction entries m arbitrary: s rule: shaToBranches_loop.induct)
     (auto simp: inner_get inner_has set_add_nonempty)

lemma shaToBranches_has:
  "map_has (shaToBranches e cfg) s
     \<longleftrightarrow> (\<exists>rb shas. map_of (branchToCommits e cfg) rb = Some shas \<and> s \<in> set shas)"
  unfolding shaToBranches_def loop_has branchToCommits_entries by (simp add: map_has_def)

lemma shaToBranches_set:
  "set (get_or_empty (shaToBranches e cfg) s)
     = {rb. \<exists>shas. map_of (branchToCommits e cfg) rb = Some shas \<and> s \<in> set shas}"
  unfolding shaToBranches_def loop_set branchToCommits_entries by (simp add: get_or_empty_def)

lemma shaToBranches_distinct: "distinct (get_or_empty (shaToBranches e cfg) s)"
  unfolding shaToBranches_def by (rule loop_distinct) (simp add: get_or_empty_def)

lemma shaToBranches_nonempty:
  "map_has (shaToBranches e cfg) s \<Longrightarrow> get_or_empty (shaToBranches e cfg) s \<noteq> []"
  unfolding shaToBranches_def by (rule loop_nonempty) (simp_all add: map_has_def)

lemma first_seen_set: "set (first_seen xs) = set xs"
  by (induction xs rule: first_seen.induct) auto

lemma first_seen_distinct: "distinct (first_seen xs)"
  by (induction xs rule: first_seen.induct) (auto simp: first_seen_set)

lemma commitShas_filter_first_seen:
  "commitShas_filter m seen xs
     = first_seen (filter (\<lambda>s. map_has m s \<and> s \<notin> set seen) xs)"
proof (induction xs arbitrary: seen)
  case Nil
  show ?case by simp
next
  case (Cons s xs)
  have "filter (\<lambda>y. y \<noteq> s) (filter (\<lambda>t. map_has m t \<and> t \<notin> set seen) xs)
          = filter (\<lambda>t. map_has m t \<and> t \<notin> set (set_add s seen)) xs"
    by (auto simp: set_add_set intro: filter_cong)
  then show ?case
    by (simp add: Cons.IH)
qed

lemma commitShas_first_seen:
  "commitShas e cfg = first_seen (filter (map_has (shaToBranches e cfg)) (allShasOrdered e))"
  by (simp add: commitShas_def commitShas_filter_first_seen)

lemma map_all_Some:
  "map_all f xs = Some ys \<Longrightarrow> length ys = length xs \<and> (\<forall>i<length xs. f (xs ! i) = Some (ys ! i))"
proof (induction xs arbitrary: ys)
  case Nil
  then show ?case by simp
next
  case (Cons x xs)
  then obtain y ys' where y: "f x = Some y" "map_all f xs = Some ys'" "ys = y # ys'"
    by (auto split: option.splits)
  from Cons.IH [OF y(2)] y show ?case
    by (auto simp: nth_Cons split: nat.splits)
qed

subsection \<open>The example run\<close>

lemmas ex_simps = example_env_def example_config_def sh_lines_def sh_def trim_def
  is_white_space_def is_line_terminator_def

lemma ex_remoteBranches: "remoteBranches example_env = [[0x6D], [0x64]]"
  by (simp add: remoteBranches_def ex_simps)

lemma ex_branchToCommits:
  "branchToCommits example_env example_config
     = [([0x6D], [[0x61], [0x62]]), ([0x64], [[0x62], [0x63]])]"
  by (simp add: branchToCommits_def ex_remoteBranches) (simp add: ex_simps slice_from_def)

lemma ex_shaToBranches:
  "shaToBranches example_env example_config
     = [([0x61], [[0x6D]]), ([0x62], [[0x6D], [0x64]]), ([0x63], [[0x64]])]"
  by (simp add: shaToBranches_def ex_branchToCommits map_has_def set_add_def)

lemma ex_allShasOrdered:
  "allShasOrdered example_env = [[0x61], [0x78], [0x62], [0x63], [0x61]]"
  by (simp add: allShasOrdered_def ex_simps)

lemma ex_commitShas: "commitShas example_env example_config = [[0x61], [0x62], [0x63]]"
  by (simp add: commitShas_def ex_shaToBranches ex_allShasOrdered map_has_def set_add_def)

lemma ex_commitMetas:
  "map_option (map (\<lambda>cm. (sha cm, branches cm))) (commitMetas example_env example_config)
     = Some [([0x61], [[0x6D]]), ([0x62], [[0x64], [0x6D]]), ([0x63], [[0x64]])]"
  by (simp add: commitMetas_def ex_commitShas ex_shaToBranches)
     (simp add: commitMeta_of_def get_or_empty_def example_env_def example_config_def)

lemma ex_commitMetas_full:
  "commitMetas example_env example_config
     = Some [example_meta [0x61] [[0x6D]], example_meta [0x62] [[0x64], [0x6D]],
             example_meta [0x63] [[0x64]]]"
  by (simp add: commitMetas_def ex_commitShas ex_shaToBranches)
     (simp add: commitMeta_of_def get_or_empty_def example_env_def example_config_def
        example_meta_def sh_def trim_def is_white_space_def is_line_terminator_def)

lemma commitMetas_nth:
  assumes "commitMetas e cfg = Some metas" and "cm \<in> set metas"
  shows "sha cm \<in> set (commitShas e cfg)
       \<and> branches cm = sort (get_or_empty (shaToBranches e cfg) (sha cm))"
proof -
  from assms(2) obtain i where i: "i < length metas" "cm = metas ! i"
    by (auto simp: in_set_conv_nth)
  from map_all_Some [OF assms(1) [unfolded commitMetas_def]] i
  have len: "i < length (commitShas e cfg)"
    and cm: "commitMeta_of e cfg (shaToBranches e cfg) (commitShas e cfg ! i) = Some cm"
    by auto
  from cm have "sha cm = commitShas e cfg ! i"
    and "branches cm = sort (get_or_empty (shaToBranches e cfg) (commitShas e cfg ! i))"
    by (auto simp: commitMeta_of_def split: option.splits)
  with len show ?thesis by auto
qed

lemma commitShas_has: "s \<in> set (commitShas e cfg) \<Longrightarrow> map_has (shaToBranches e cfg) s"
  by (simp add: commitShas_first_seen first_seen_set)

lemma branchToCommits_dom:
  "map_of (branchToCommits e cfg) rb = Some shas \<Longrightarrow> rb \<in> set (remoteBranches e)"
  by (simp add: branchToCommits_lookup split: if_splits)

text \<open>
  C3: the final sequence \<open>commitShas\<close> has no repetition; it is the global oldest-first
  scan restricted to the ids present in the attribution map, every id at the place of
  its first occurrence; an id is in the attribution map exactly when the per-branch
  sequence of some tracked branch lists it, so that every id of \<open>commitShas\<close> is attributed
  to a non-empty set of tracked branches and every other id is dropped.
\<close>

theorem commitShas_attributed:
  "distinct (commitShas e cfg)
   \<and> commitShas e cfg
       = first_seen (filter (map_has (shaToBranches e cfg)) (allShasOrdered e))
   \<and> (\<forall>s. map_has (shaToBranches e cfg) s \<longleftrightarrow>
            (\<exists>rb\<in>set (remoteBranches e). \<exists>shas.
                map_of (branchToCommits e cfg) rb = Some shas \<and> s \<in> set shas))
   \<and> (\<forall>s\<in>set (commitShas e cfg).
          s \<in> set (allShasOrdered e)
        \<and> get_or_empty (shaToBranches e cfg) s \<noteq> []
        \<and> set (get_or_empty (shaToBranches e cfg) s) \<subseteq> set (remoteBranches e))"
proof (intro conjI allI ballI)
  show "distinct (commitShas e cfg)"
    by (simp add: commitShas_first_seen first_seen_distinct)
  show "commitShas e cfg
          = first_seen (filter (map_has (shaToBranches e cfg)) (allShasOrdered e))"
    by (rule commitShas_first_seen)
  show "map_has (shaToBranches e cfg) s \<longleftrightarrow>
          (\<exists>rb\<in>set (remoteBranches e). \<exists>shas.
              map_of (branchToCommits e cfg) rb = Some shas \<and> s \<in> set shas)" for s
    unfolding shaToBranches_has using branchToCommits_dom by blast
next
  fix s assume s: "s \<in> set (commitShas e cfg)"
  then show "s \<in> set (allShasOrdered e)"
    by (simp add: commitShas_first_seen first_seen_set)
  from s show "get_or_empty (shaToBranches e cfg) s \<noteq> []"
    by (intro shaToBranches_nonempty commitShas_has)
  show "set (get_or_empty (shaToBranches e cfg) s) \<subseteq> set (remoteBranches e)"
    unfolding shaToBranches_set using branchToCommits_dom by blast
qed

theorem commitShas_attributed_witness:
  "distinct (commitShas example_env example_config)
   \<and> commitShas example_env example_config
       = first_seen [[0x61], [0x62], [0x63], [0x61]]
   \<and> commitShas example_env example_config = [[0x61], [0x62], [0x63]]
   \<and> get_or_empty (shaToBranches example_env example_config) [0x62] = [[0x6D], [0x64]]
   \<and> set [[0x6D], [0x64]] \<subseteq> set (remoteBranches example_env)"
  using commitShas_attributed [of example_env example_config]
  by (simp add: ex_commitShas ex_shaToBranches ex_allShasOrdered ex_remoteBranches
        map_has_def get_or_empty_def)

text \<open>For a positive limit the per-branch sequence is the log of the branch, oldest first,
  without its first elements: the last \<open>PER_BRANCH_LIMIT\<close> ids when the log is longer.\<close>

lemma branchToCommits_positive_limit:
  assumes "rb \<in> set (remoteBranches e)" and "0 < PER_BRANCH_LIMIT cfg"
  shows "map_of (branchToCommits e cfg) rb
           = Some (drop (length (sh_lines (log_branch_out e rb)) - nat (PER_BRANCH_LIMIT cfg))
                     (sh_lines (log_branch_out e rb)))"
proof -
  have "nat (max (int n - PER_BRANCH_LIMIT cfg) 0) = n - nat (PER_BRANCH_LIMIT cfg)" for n
    using assms(2) by auto
  then show ?thesis
    using assms by (simp add: branchToCommits_lookup slice_from_def)
qed

text \<open>
  C6: a per-branch sequence longer than the configured maximum is cut from the front and
  keeps exactly the last \<open>PER_BRANCH_LIMIT\<close> ids. With \<open>PER_BRANCH_LIMIT = 0\<close> the cut is
  \<open>list.slice(-0)\<close>, which is \<open>list.slice(0)\<close>: the branch \<open>m\<close> of the example keeps both
  commits of its log, not none.
\<close>

theorem branchToCommits_limit_zero_keeps_all:
  "sh_lines (log_branch_out example_env [0x6D]) = [[0x61], [0x62]]
   \<and> map_of (branchToCommits example_env (example_config\<lparr>PER_BRANCH_LIMIT := 0\<rparr>)) [0x6D]
       = Some [[0x61], [0x62]]"
  by (simp add: branchToCommits_lookup ex_remoteBranches slice_from_def)
     (simp add: ex_simps)

lemma slice_from_uncut: "int (length xs) \<le> lim \<Longrightarrow> slice_from xs (- lim) = xs"
  by (auto simp: slice_from_def)

lemma ex1_branchToCommits:
  "branchToCommits example_env (example_config\<lparr>PER_BRANCH_LIMIT := 1\<rparr>)
     = [([0x6D], [[0x62]]), ([0x64], [[0x63]])]"
  by (simp add: branchToCommits_def ex_remoteBranches) (simp add: ex_simps slice_from_def)

lemma ex1_shaToBranches:
  "shaToBranches example_env (example_config\<lparr>PER_BRANCH_LIMIT := 1\<rparr>)
     = [([0x62], [[0x6D]]), ([0x63], [[0x64]])]"
  by (simp add: shaToBranches_def ex1_branchToCommits map_has_def set_add_def)

lemma ex1_commitShas:
  "commitShas example_env (example_config\<lparr>PER_BRANCH_LIMIT := 1\<rparr>) = [[0x62], [0x63]]"
  by (simp add: commitShas_def ex1_shaToBranches ex_allShasOrdered map_has_def set_add_def)

lemma ex1_commitMetas:
  "commitMetas example_env (example_config\<lparr>PER_BRANCH_LIMIT := 1\<rparr>)
     = Some [example_meta [0x62] [[0x6D]], example_meta [0x63] [[0x64]]]"
  by (simp add: commitMetas_def ex1_commitShas ex1_shaToBranches)
     (simp add: commitMeta_of_def get_or_empty_def example_env_def example_config_def
        example_meta_def sh_def trim_def is_white_space_def is_line_terminator_def)

lemma ex_logs:
  "sh_lines (log_branch_out example_env [0x6D]) = [[0x61], [0x62]]"
  "sh_lines (log_branch_out example_env [0x64]) = [[0x62], [0x63]]"
  by (simp_all add: ex_simps)

text \<open>
  C9, as stated: every commit record handed to the reduction has a non-empty, sorted
  field \<open>branches\<close>, and a commit reachable from two tracked branches has both names in
  it. In the example the commit \<open>b\<close> is in the log of \<open>m\<close> and in the log of \<open>d\<close>; with
  \<open>PER_BRANCH_LIMIT = 1\<close> the log of \<open>d\<close> is cut to its last commit \<open>c\<close>, and the record of \<open>b\<close>
  names \<open>m\<close> only.
\<close>

theorem commitMetas_branches_counterexample:
  "[0x6D] \<in> set (remoteBranches example_env) \<and> [0x64] \<in> set (remoteBranches example_env)
   \<and> [0x62] \<in> set (sh_lines (log_branch_out example_env [0x6D]))
   \<and> [0x62] \<in> set (sh_lines (log_branch_out example_env [0x64]))
   \<and> commitMetas example_env (example_config\<lparr>PER_BRANCH_LIMIT := 1\<rparr>)
       = Some [example_meta [0x62] [[0x6D]], example_meta [0x63] [[0x64]]]
   \<and> branches (example_meta [0x62] [[0x6D]]) = [[0x6D]]
   \<and> [0x64] \<notin> set (branches (example_meta [0x62] [[0x6D]]))"
  by (simp add: ex_remoteBranches ex_logs ex1_commitMetas) (simp add: example_meta_def)

text \<open>
  C9, amended: for every commit record handed to the reduction, the field \<open>branches\<close> is
  non-empty and sorted (without repetition), and it holds exactly the tracked branches
  whose per-branch sequence, that is the log of the branch after the cut by
  \<open>PER_BRANCH_LIMIT\<close>, lists the commit. A commit in the logs of two tracked branches has
  both names whenever neither log is longer than the limit.
\<close>

theorem commitMetas_branches:
  assumes "commitMetas e cfg = Some metas"
  shows "\<forall>cm\<in>set metas.
           branches cm \<noteq> [] \<and> sorted (branches cm) \<and> distinct (branches cm)
         \<and> set (branches cm)
             = {rb. \<exists>shas. map_of (branchToCommits e cfg) rb = Some shas \<and> sha cm \<in> set shas}
         \<and> (\<forall>rb\<in>set (remoteBranches e).
               map_of (branchToCommits e cfg) rb
                 = Some (slice_from (sh_lines (log_branch_out e rb)) (- PER_BRANCH_LIMIT cfg)))
         \<and> (\<forall>rb\<in>set (remoteBranches e).
               sha cm \<in> set (sh_lines (log_branch_out e rb))
               \<and> int (length (sh_lines (log_branch_out e rb))) \<le> PER_BRANCH_LIMIT cfg
               \<longrightarrow> rb \<in> set (branches cm))"
proof
  fix cm assume "cm \<in> set metas"
  from commitMetas_nth [OF assms this]
  have s: "sha cm \<in> set (commitShas e cfg)"
    and b: "branches cm = sort (get_or_empty (shaToBranches e cfg) (sha cm))"
    by auto
  have "get_or_empty (shaToBranches e cfg) (sha cm) \<noteq> []"
    using s by (intro shaToBranches_nonempty commitShas_has)
  then have "set (branches cm) \<noteq> {}"
    unfolding b by simp
  then have ne: "branches cm \<noteq> []" by auto
  have sd: "sorted (branches cm)" "distinct (branches cm)"
    unfolding b by (simp_all add: shaToBranches_distinct)
  have st: "set (branches cm)
      = {rb. \<exists>shas. map_of (branchToCommits e cfg) rb = Some shas \<and> sha cm \<in> set shas}"
    unfolding b by (simp add: shaToBranches_set)
  have lk: "\<forall>rb\<in>set (remoteBranches e).
               map_of (branchToCommits e cfg) rb
                 = Some (slice_from (sh_lines (log_branch_out e rb)) (- PER_BRANCH_LIMIT cfg))"
    by (simp add: branchToCommits_lookup)
  have uncut: "\<forall>rb\<in>set (remoteBranches e).
               sha cm \<in> set (sh_lines (log_branch_out e rb))
               \<and> int (length (sh_lines (log_branch_out e rb))) \<le> PER_BRANCH_LIMIT cfg
               \<longrightarrow> rb \<in> set (branches cm)"
    unfolding st by (auto simp: branchToCommits_lookup slice_from_uncut)
  from ne sd st lk uncut
  show "branches cm \<noteq> [] \<and> sorted (branches cm) \<and> distinct (branches cm)
         \<and> set (branches cm)
             = {rb. \<exists>shas. map_of (branchToCommits e cfg) rb = Some shas \<and> sha cm \<in> set shas}
         \<and> (\<forall>rb\<in>set (remoteBranches e).
               map_of (branchToCommits e cfg) rb
                 = Some (slice_from (sh_lines (log_branch_out e rb)) (- PER_BRANCH_LIMIT cfg)))
         \<and> (\<forall>rb\<in>set (remoteBranches e).
               sha cm \<in> set (sh_lines (log_branch_out e rb))
               \<and> int (length (sh_lines (log_branch_out e rb))) \<le> PER_BRANCH_LIMIT cfg
               \<longrightarrow> rb \<in> set (branches cm))"
    by blast
qed

theorem commitMetas_branches_witness:
  "commitMetas example_env example_config
     = Some [example_meta [0x61] [[0x6D]], example_meta [0x62] [[0x64], [0x6D]],
             example_meta [0x63] [[0x64]]]
   \<and> [0x62] \<in> set (sh_lines (log_branch_out example_env [0x6D]))
   \<and> [0x62] \<in> set (sh_lines (log_branch_out example_env [0x64]))
   \<and> int (length (sh_lines (log_branch_out example_env [0x6D]))) \<le> 200
   \<and> int (length (sh_lines (log_branch_out example_env [0x64]))) \<le> 200
   \<and> [0x6D] \<in> set (branches (example_meta [0x62] [[0x64], [0x6D]]))
   \<and> [0x64] \<in> set (branches (example_meta [0x62] [[0x64], [0x6D]]))
   \<and> sorted (branches (example_meta [0x62] [[0x64], [0x6D]]))
   \<and> commitMetas example_env (example_config\<lparr>PER_BRANCH_LIMIT := 1\<rparr>)
       = Some [example_meta [0x62] [[0x6D]], example_meta [0x63] [[0x64]]]
   \<and> map_of (branchToCommits example_env (example_config\<lparr>PER_BRANCH_LIMIT := 1\<rparr>)) [0x64]
       = Some [[0x63]]
   \<and> set (branches (example_meta [0x62] [[0x6D]]))
       = {rb. \<exists>shas. map_of (branchToCommits example_env
                                 (example_config\<lparr>PER_BRANCH_LIMIT := 1\<rparr>)) rb = Some shas
                     \<and> [0x62] \<in> set shas}"
proof -
  have m200: "example_meta [0x62] [[0x64], [0x6D]]
          \<in> set [example_meta [0x61] [[0x6D]], example_meta [0x62] [[0x64], [0x6D]],
                  example_meta [0x63] [[0x64]]]"
    by simp
  have m1: "example_meta [0x62] [[0x6D]]
          \<in> set [example_meta [0x62] [[0x6D]], example_meta [0x63] [[0x64]]]"
    by simp
  note a = bspec [OF commitMetas_branches [OF ex_commitMetas_full] m200]
  note b = bspec [OF commitMetas_branches [OF ex1_commitMetas] m1]
  have lim: "PER_BRANCH_LIMIT example_config = 200"
    by (simp add: example_config_def)
  have sha: "sha (example_meta s bs) = s" for s bs
    by (simp add: example_meta_def)
  from a have "[0x6D] \<in> set (branches (example_meta [0x62] [[0x64], [0x6D]]))"
    "[0x64] \<in> set (branches (example_meta [0x62] [[0x64], [0x6D]]))"
    "sorted (branches (example_meta [0x62] [[0x64], [0x6D]]))"
    by (simp_all add: ex_remoteBranches ex_logs lim sha slice_from_def)
  moreover from b have "set (branches (example_meta [0x62] [[0x6D]]))
       = {rb. \<exists>shas. map_of (branchToCommits example_env
                                 (example_config\<lparr>PER_BRANCH_LIMIT := 1\<rparr>)) rb = Some shas
                     \<and> [0x62] \<in> set shas}"
    by (simp add: sha)
  ultimately show ?thesis
    by (simp add: ex_commitMetas_full ex1_commitMetas ex_logs ex1_branchToCommits)
qed

section \<open>The reduction\<close>

lemma chunk_tier_closed:
  "i \<le> length chunks \<Longrightarrow>
   chunk_tier e cm chunks i ps calls
     = (ps @ map (\<lambda>j. part_summary j
                        (reply e (length calls + (j - i))
                           (commitChunkPrompt cm (j + 1) (length chunks) (chunks ! j))))
               [i..<length chunks],
        calls @ map (\<lambda>j. commitChunkPrompt cm (j + 1) (length chunks) (chunks ! j))
                  [i..<length chunks])"
proof (induction "length chunks - i" arbitrary: i ps calls)
  case 0
  then show ?case
    by (subst chunk_tier.simps) simp
next
  case (Suc n)
  then have lt: "i < length chunks" and n: "n = length chunks - Suc i" and le: "Suc i \<le> length chunks"
    by auto
  let ?prompt = "\<lambda>j. commitChunkPrompt cm (j + 1) (length chunks) (chunks ! j)"
  have shift: "map (\<lambda>j. part_summary j (reply e (length (calls @ [?prompt i]) + (j - Suc i)) (?prompt j)))
                 [Suc i..<length chunks]
             = map (\<lambda>j. part_summary j (reply e (length calls + (j - i)) (?prompt j)))
                 [Suc i..<length chunks]"
  proof (rule map_cong [OF refl])
    fix j assume "j \<in> set [Suc i..<length chunks]"
    then have "Suc i \<le> j" by simp
    then have "length (calls @ [?prompt i]) + (j - Suc i) = length calls + (j - i)"
      by simp
    then show "part_summary j (reply e (length (calls @ [?prompt i]) + (j - Suc i)) (?prompt j))
                 = part_summary j (reply e (length calls + (j - i)) (?prompt j))"
      by (simp only:)
  qed
  have step: "chunk_tier e cm chunks i ps calls
          = chunk_tier e cm chunks (Suc i)
              (ps @ [part_summary i (reply e (length calls) (?prompt i))])
              (calls @ [?prompt i])"
    using lt by (subst chunk_tier.simps) (simp add: chat_def Let_def)
  have "chunk_tier e cm chunks i ps calls
          = ((ps @ [part_summary i (reply e (length calls) (?prompt i))])
               @ map (\<lambda>j. part_summary j (reply e (length calls + (j - i)) (?prompt j)))
                   [Suc i..<length chunks],
             (calls @ [?prompt i]) @ map ?prompt [Suc i..<length chunks])"
    by (simp only: step Suc.hyps(1) [OF n le] shift)
  then show ?case
    using lt by (simp add: upt_conv_Cons)
qed

lemma chunk_tier_from_start:
  "chunk_tier e cm chunks 0 [] calls
     = (map (\<lambda>j. part_summary j
                    (reply e (length calls + j)
                       (commitChunkPrompt cm (j + 1) (length chunks) (chunks ! j))))
          [0..<length chunks],
        calls @ map (\<lambda>j. commitChunkPrompt cm (j + 1) (length chunks) (chunks ! j))
                  [0..<length chunks])"
  using chunk_tier_closed [of 0 chunks e cm "[]" calls] by simp

lemma part_summary_nonempty: "part_summary i r \<noteq> []"
  by (cases r) (simp_all add: part_summary_def empty_placeholder_def failed_placeholder_def)

lemma summarize_commit_zero:
  assumes "getDiff e (sha cm) = Some fullPatch" and "trim fullPatch = []"
  shows "summarize_commit e cfg cm calls
           = Inr (\<lparr> meta = cm, summary = zero_diff_summary \<rparr>, calls)"
  using assms by (simp add: summarize_commit_def)

lemma trim_Nil: "trim [] = []"
  by (simp add: trim_def)

lemma summarize_commit_nonzero:
  assumes "getDiff e (sha cm) = Some fullPatch" and "trim fullPatch \<noteq> []"
    and "chunkBySize (splitPatchByFile fullPatch) (DIFF_CHUNK_MAX_CHARS cfg) = Some chunks"
    and "chunk_tier e cm chunks 0 [] calls = (partSummaries, calls1)"
  shows "summarize_commit e cfg cm calls
           = Inr (\<lparr> meta = cm,
                    summary = (case reply e (length calls1) (commitMergePrompt cm partSummaries) of
                                 Resolved s \<Rightarrow> s
                               | Rejected reason \<Rightarrow> join blank_line partSummaries) \<rparr>,
                  calls1 @ [commitMergePrompt cm partSummaries])"
proof -
  from assms(2) have "fullPatch \<noteq> []"
    using trim_Nil by auto
  with assms show ?thesis
    by (simp add: summarize_commit_def chat_def Let_def)
qed

lemma summarize_commit_appends:
  assumes "summarize_commit e cfg cm calls = Inr (it, calls')"
  shows "meta it = cm \<and> (\<exists>seg. calls' = calls @ seg)"
  using assms
  by (auto simp: summarize_commit_def chat_def Let_def chunk_tier_from_start
           split: option.splits if_splits)

lemma perCommit_loop_segments:
  "perCommit_loop e cfg cms acc calls = Inr (items, calls') \<Longrightarrow>
   \<exists>segs its. length segs = length cms \<and> length its = length cms
     \<and> items = acc @ its \<and> calls' = calls @ concat segs
     \<and> (\<forall>j<length cms.
           summarize_commit e cfg (cms ! j) (calls @ concat (take j segs))
             = Inr (its ! j, calls @ concat (take (Suc j) segs)))"
proof (induction cms arbitrary: acc calls)
  case Nil
  then show ?case by simp
next
  case (Cons cm cms)
  from Cons.prems obtain it calls1 where
    s: "summarize_commit e cfg cm calls = Inr (it, calls1)"
    and l: "perCommit_loop e cfg cms (acc @ [it]) calls1 = Inr (items, calls')"
    by (auto split: sum.splits)
  from summarize_commit_appends [OF s] obtain seg where seg: "calls1 = calls @ seg"
    by auto
  from Cons.IH [OF l] obtain segs its where
    r: "length segs = length cms" "length its = length cms"
       "items = (acc @ [it]) @ its" "calls' = calls1 @ concat segs"
       "\<forall>j<length cms.
           summarize_commit e cfg (cms ! j) (calls1 @ concat (take j segs))
             = Inr (its ! j, calls1 @ concat (take (Suc j) segs))"
    by blast
  have "\<forall>j<length (cm # cms).
           summarize_commit e cfg ((cm # cms) ! j) (calls @ concat (take j (seg # segs)))
             = Inr ((it # its) ! j, calls @ concat (take (Suc j) (seg # segs)))"
  proof (intro allI impI)
    fix j assume j: "j < length (cm # cms)"
    show "summarize_commit e cfg ((cm # cms) ! j) (calls @ concat (take j (seg # segs)))
             = Inr ((it # its) ! j, calls @ concat (take (Suc j) (seg # segs)))"
    proof (cases j)
      case 0
      then show ?thesis using s seg by simp
    next
      case (Suc k)
      with j r(5) seg show ?thesis by simp
    qed
  qed
  with r seg show ?case
    by (intro exI [of _ "seg # segs"] exI [of _ "it # its"]) simp
qed

lemma ex_getDiff:
  "getDiff example_env [0x61] = Some []"
  "getDiff example_env [0x62] = Some (diff_git @ [0x000A, 0x002B, 0x79])"
  "getDiff example_env [0x63]
     = Some (diff_git @ [0x000A, 0x002B, 0x79, 0x000A] @ diff_git @ [0x000A, 0x002B, 0x7A])"
  by (simp_all add: getDiff_def getParentSha_def ex_simps diff_git_def)

lemma ex_chunks:
  "chunkBySize (splitPatchByFile (diff_git @ [0x000A, 0x002B, 0x79])) 3 = Some [[0x002B, 0x79]]"
  "chunkBySize (splitPatchByFile
      (diff_git @ [0x000A, 0x002B, 0x79, 0x000A] @ diff_git @ [0x000A, 0x002B, 0x7A])) 3
     = Some [[0x002B, 0x79], [0x002B, 0x7A]]"
  by (simp_all add: splitPatchByFile_def diff_git_def trim_def is_white_space_def
        is_line_terminator_def chunkBySize_def Let_def blank_line_def)

lemma ex_trim:
  "trim (diff_git @ [0x000A, 0x002B, 0x79]) \<noteq> []"
  "trim (diff_git @ [0x000A, 0x002B, 0x79, 0x000A] @ diff_git @ [0x000A, 0x002B, 0x7A]) \<noteq> []"
  by (simp_all add: diff_git_def trim_def is_white_space_def is_line_terminator_def)

lemma ex_reply:
  "reply example_env n p
     = (if n < 2 then Resolved [] else if n = 3 then Resolved [0x53] else Rejected [0x45])"
  by (simp add: example_env_def)

lemma ex_chunk_tier_b:
  "chunk_tier example_env cm [[0x002B, 0x79]] 0 [] []
     = ([empty_placeholder 0], [commitChunkPrompt cm 1 1 [0x002B, 0x79]])"
  by (simp add: chunk_tier_from_start part_summary_def ex_reply)

lemma ex_chunk_tier_c:
  "chunk_tier example_env cm [[0x002B, 0x79], [0x002B, 0x7A]] 0 [] [p, q]
     = ([failed_placeholder 0 [0x45], [0x53]],
        [p, q, commitChunkPrompt cm 1 2 [0x002B, 0x79], commitChunkPrompt cm 2 2 [0x002B, 0x7A]])"
  by (simp add: chunk_tier_from_start part_summary_def upt_conv_Cons ex_reply numeral_2_eq_2)

lemma ex_sha: "sha (example_meta s bs) = s"
  by (simp add: example_meta_def)

lemma ex_limit: "DIFF_CHUNK_MAX_CHARS example_config = 3"
  by (simp add: example_config_def)

lemma ex_summarize_a:
  "summarize_commit example_env example_config (example_meta [0x61] bs) calls
     = Inr (\<lparr> meta = example_meta [0x61] bs, summary = zero_diff_summary \<rparr>, calls)"
  by (rule summarize_commit_zero [of _ _ "[]"]) (simp_all add: ex_sha ex_getDiff trim_Nil)

lemma ex_summarize_b:
  "summarize_commit example_env example_config (example_meta [0x62] bs) []
     = Inr (\<lparr> meta = example_meta [0x62] bs, summary = [] \<rparr>,
            [commitChunkPrompt (example_meta [0x62] bs) 1 1 [0x002B, 0x79],
             commitMergePrompt (example_meta [0x62] bs) [empty_placeholder 0]])"
proof -
  have gd: "getDiff example_env (sha (example_meta [0x62] bs))
              = Some (diff_git @ [0x000A, 0x002B, 0x79])"
    by (simp only: ex_sha ex_getDiff)
  have ch: "chunkBySize (splitPatchByFile (diff_git @ [0x000A, 0x002B, 0x79]))
              (DIFF_CHUNK_MAX_CHARS example_config) = Some [[0x002B, 0x79]]"
    by (simp only: ex_limit ex_chunks)
  from summarize_commit_nonzero [OF gd ex_trim(1) ch ex_chunk_tier_b]
  show ?thesis by (simp add: ex_reply)
qed

lemma ex_summarize_c:
  "summarize_commit example_env example_config (example_meta [0x63] bs) [p, q]
     = Inr (\<lparr> meta = example_meta [0x63] bs,
              summary = failed_placeholder 0 [0x45] @ blank_line @ [0x53] \<rparr>,
            [p, q, commitChunkPrompt (example_meta [0x63] bs) 1 2 [0x002B, 0x79],
             commitChunkPrompt (example_meta [0x63] bs) 2 2 [0x002B, 0x7A],
             commitMergePrompt (example_meta [0x63] bs) [failed_placeholder 0 [0x45], [0x53]]])"
proof -
  have gd: "getDiff example_env (sha (example_meta [0x63] bs))
              = Some (diff_git @ [0x000A, 0x002B, 0x79, 0x000A] @ diff_git
                      @ [0x000A, 0x002B, 0x7A])"
    by (simp only: ex_sha ex_getDiff)
  have ch: "chunkBySize (splitPatchByFile
              (diff_git @ [0x000A, 0x002B, 0x79, 0x000A] @ diff_git @ [0x000A, 0x002B, 0x7A]))
              (DIFF_CHUNK_MAX_CHARS example_config) = Some [[0x002B, 0x79], [0x002B, 0x7A]]"
    by (simp only: ex_limit ex_chunks)
  from summarize_commit_nonzero [OF gd ex_trim(2) ch ex_chunk_tier_c]
  show ?thesis by (simp add: ex_reply)
qed

lemma ex_perCommit_loop:
  "perCommit_loop example_env example_config
     [example_meta [0x61] [[0x6D]], example_meta [0x62] [[0x64], [0x6D]],
      example_meta [0x63] [[0x64]]] [] []
     = Inr (example_items, example_calls)"
  by (simp add: ex_summarize_a ex_summarize_b ex_summarize_c example_items_def example_calls_def)

lemma ex_run:
  "run example_env example_config
     = Report example_items
         (daily_fail_note @ join rule_sep (map fallback_line example_items))
         (example_calls @ [dailyMergePrompt [0x44] example_items repository])"
proof -
  have key: "OPENAI_API_KEY example_config \<noteq> []" and repo: "REPO example_config = []"
    by (simp_all add: example_config_def)
  have len: "length example_calls = 5"
    by (simp add: example_calls_def)
  have "daily_tier example_env example_config example_items example_calls
          = (daily_fail_note @ join rule_sep (map fallback_line example_items),
             example_calls @ [dailyMergePrompt [0x44] example_items repository])"
    by (simp add: daily_tier_def chat_def repo len ex_reply) (simp add: example_env_def)
  then show ?thesis
    by (simp add: run_def key ex_commitShas ex_commitMetas_full ex_perCommit_loop
          del: perCommit_loop.simps)
qed


















text \<open>
  C10: every summary recorded by the chunk tier is a non-empty text, and a call that
  resolves with the empty text records the placeholder naming the chunk. The commit tier
  has no such guard: when its call resolves with the empty text, the empty text is the
  summary of the commit.
\<close>

theorem empty_result_guard:
  assumes "chunk_tier e cm chunks 0 [] calls = (partSummaries, calls1)"
  shows "(\<forall>s\<in>set partSummaries. s \<noteq> [])
       \<and> (\<forall>i<length chunks.
             reply e (length calls + i)
               (commitChunkPrompt cm (i + 1) (length chunks) (chunks ! i)) = Resolved []
             \<longrightarrow> partSummaries ! i = empty_placeholder i
               \<and> empty_placeholder i
                   = [0xFF08, 0x7247, 0x6BB5] @ num_str (i + 1)
                     @ [0x6458, 0x8981, 0x4E3A, 0x7A7A, 0xFF09])
       \<and> (\<forall>fullPatch.
             getDiff e (sha cm) = Some fullPatch \<and> trim fullPatch \<noteq> []
             \<and> chunkBySize (splitPatchByFile fullPatch) (DIFF_CHUNK_MAX_CHARS cfg) = Some chunks
             \<and> reply e (length calls1) (commitMergePrompt cm partSummaries) = Resolved []
             \<longrightarrow> summarize_commit e cfg cm calls
                   = Inr (\<lparr> meta = cm, summary = [] \<rparr>,
                          calls1 @ [commitMergePrompt cm partSummaries]))"
proof (intro conjI allI impI ballI)
  fix s assume "s \<in> set partSummaries"
  moreover from assms
  have "partSummaries
          = map (\<lambda>j. part_summary j
                         (reply e (length calls + j)
                            (commitChunkPrompt cm (j + 1) (length chunks) (chunks ! j))))
              [0..<length chunks]"
    by (simp add: chunk_tier_from_start)
  ultimately obtain j r where "s = part_summary j r"
    by auto
  then show "s \<noteq> []"
    by (simp add: part_summary_nonempty)
next
  fix i
  assume "i < length chunks"
  assume "reply e (length calls + i)
           (commitChunkPrompt cm (i + 1) (length chunks) (chunks ! i)) = Resolved []"
  moreover from assms \<open>i < length chunks\<close>
  have "partSummaries ! i
          = part_summary i
              (reply e (length calls + i)
                 (commitChunkPrompt cm (i + 1) (length chunks) (chunks ! i)))"
    by (auto simp: chunk_tier_from_start)
  ultimately show "partSummaries ! i = empty_placeholder i"
    by (simp add: part_summary_def)
  show "empty_placeholder i
          = [0xFF08, 0x7247, 0x6BB5] @ num_str (i + 1) @ [0x6458, 0x8981, 0x4E3A, 0x7A7A, 0xFF09]"
    by (simp add: empty_placeholder_def)
next
  fix fullPatch
  assume a: "getDiff e (sha cm) = Some fullPatch \<and> trim fullPatch \<noteq> []
             \<and> chunkBySize (splitPatchByFile fullPatch) (DIFF_CHUNK_MAX_CHARS cfg) = Some chunks
             \<and> reply e (length calls1) (commitMergePrompt cm partSummaries) = Resolved []"
  then have "getDiff e (sha cm) = Some fullPatch" "trim fullPatch \<noteq> []"
    "chunkBySize (splitPatchByFile fullPatch) (DIFF_CHUNK_MAX_CHARS cfg) = Some chunks"
    by simp_all
  from summarize_commit_nonzero [OF this assms] a
  show "summarize_commit e cfg cm calls
          = Inr (\<lparr> meta = cm, summary = [] \<rparr>, calls1 @ [commitMergePrompt cm partSummaries])"
    by simp
qed

theorem empty_result_guard_witness:
  "chunk_tier example_env (example_meta [0x62] [[0x64], [0x6D]]) [[0x002B, 0x79]] 0 [] []
     = ([empty_placeholder 0],
        [commitChunkPrompt (example_meta [0x62] [[0x64], [0x6D]]) 1 1 [0x002B, 0x79]])
   \<and> empty_placeholder 0 \<noteq> []
   \<and> summarize_commit example_env example_config (example_meta [0x62] [[0x64], [0x6D]]) []
       = Inr (\<lparr> meta = example_meta [0x62] [[0x64], [0x6D]], summary = [] \<rparr>,
              [commitChunkPrompt (example_meta [0x62] [[0x64], [0x6D]]) 1 1 [0x002B, 0x79],
               commitMergePrompt (example_meta [0x62] [[0x64], [0x6D]]) [empty_placeholder 0]])"
proof -
  note t = empty_result_guard [OF ex_chunk_tier_b,
             of "example_meta [0x62] [[0x64], [0x6D]]" example_config]
  have gd: "getDiff example_env (sha (example_meta [0x62] [[0x64], [0x6D]]))
              = Some (diff_git @ [0x000A, 0x002B, 0x79])"
    by (simp only: ex_sha ex_getDiff)
  have ch: "chunkBySize (splitPatchByFile (diff_git @ [0x000A, 0x002B, 0x79]))
              (DIFF_CHUNK_MAX_CHARS example_config) = Some [[0x002B, 0x79]]"
    by (simp only: ex_limit ex_chunks)
  have rp: "reply example_env
              (length [commitChunkPrompt (example_meta [0x62] [[0x64], [0x6D]]) 1 1 [0x002B, 0x79]])
              (commitMergePrompt (example_meta [0x62] [[0x64], [0x6D]]) [empty_placeholder 0])
              = Resolved []"
    by (simp add: ex_reply)
  from t have "empty_placeholder 0 \<noteq> []" by simp
  moreover from t gd ex_trim(1) ch rp
  have "summarize_commit example_env example_config (example_meta [0x62] [[0x64], [0x6D]]) []
       = Inr (\<lparr> meta = example_meta [0x62] [[0x64], [0x6D]], summary = [] \<rparr>,
              [commitChunkPrompt (example_meta [0x62] [[0x64], [0x6D]]) 1 1 [0x002B, 0x79]]
              @ [commitMergePrompt (example_meta [0x62] [[0x64], [0x6D]]) [empty_placeholder 0]])"
    by blast
  ultimately show ?thesis
    using ex_chunk_tier_b by simp
qed

text \<open>
  C2, as stated: when the commit-tier call fails, the summary of the commit is the
  labelled concatenation of the chunk summaries, each one after the label of its
  position. In the example run the commit-tier call for the commit \<open>c\<close> is the fifth call
  and is rejected; the summary is the two chunk summaries with a blank line between
  them, which is not the labelled text \<open>joined\<close> that the merge prompt would have carried.
\<close>

theorem commit_tier_fallback_counterexample:
  "reply example_env 4
     (commitMergePrompt (example_meta [0x63] [[0x64]]) [failed_placeholder 0 [0x45], [0x53]])
     = Rejected [0x45]
   \<and> summarize_commit example_env example_config (example_meta [0x63] [[0x64]]) [[], []]
       = Inr (\<lparr> meta = example_meta [0x63] [[0x64]],
                summary = failed_placeholder 0 [0x45] @ blank_line @ [0x53] \<rparr>,
              [[], [], commitChunkPrompt (example_meta [0x63] [[0x64]]) 1 2 [0x002B, 0x79],
               commitChunkPrompt (example_meta [0x63] [[0x64]]) 2 2 [0x002B, 0x7A],
               commitMergePrompt (example_meta [0x63] [[0x64]])
                 [failed_placeholder 0 [0x45], [0x53]]])
   \<and> failed_placeholder 0 [0x45] @ blank_line @ [0x53]
       \<noteq> joined [failed_placeholder 0 [0x45], [0x53]]"
  by (simp add: ex_summarize_c ex_reply)
     (simp add: joined_def part_label_def failed_placeholder_def)

text \<open>
  C2, amended: for a commit with a non-empty diff, when the commit-tier call fails, the
  summary of the commit is the chunk summaries joined by a blank line, in chunk order and
  with no label added; the summary at position \<open>i\<close> is what the chunk tier recorded for
  chunk \<open>i\<close>.
\<close>

theorem commit_tier_fallback:
  assumes "getDiff e (sha cm) = Some fullPatch" and "trim fullPatch \<noteq> []"
    and "chunkBySize (splitPatchByFile fullPatch) (DIFF_CHUNK_MAX_CHARS cfg) = Some chunks"
    and "chunk_tier e cm chunks 0 [] calls = (partSummaries, calls1)"
    and "reply e (length calls1) (commitMergePrompt cm partSummaries) = Rejected reason"
  shows "summarize_commit e cfg cm calls
           = Inr (\<lparr> meta = cm, summary = join blank_line partSummaries \<rparr>,
                  calls1 @ [commitMergePrompt cm partSummaries])
       \<and> partSummaries
           = map (\<lambda>i. part_summary i
                         (reply e (length calls + i)
                            (commitChunkPrompt cm (i + 1) (length chunks) (chunks ! i))))
               [0..<length chunks]"
proof
  from summarize_commit_nonzero [OF assms(1-4)] assms(5)
  show "summarize_commit e cfg cm calls
          = Inr (\<lparr> meta = cm, summary = join blank_line partSummaries \<rparr>,
                 calls1 @ [commitMergePrompt cm partSummaries])"
    by simp
  from assms(4)
  show "partSummaries
          = map (\<lambda>i. part_summary i
                        (reply e (length calls + i)
                           (commitChunkPrompt cm (i + 1) (length chunks) (chunks ! i))))
              [0..<length chunks]"
    by (simp add: chunk_tier_from_start)
qed

theorem commit_tier_fallback_witness:
  "summarize_commit example_env example_config (example_meta [0x63] [[0x64]]) [[], []]
     = Inr (\<lparr> meta = example_meta [0x63] [[0x64]],
              summary = join blank_line [failed_placeholder 0 [0x45], [0x53]] \<rparr>,
            [[], [], commitChunkPrompt (example_meta [0x63] [[0x64]]) 1 2 [0x002B, 0x79],
             commitChunkPrompt (example_meta [0x63] [[0x64]]) 2 2 [0x002B, 0x7A]]
            @ [commitMergePrompt (example_meta [0x63] [[0x64]])
                 [failed_placeholder 0 [0x45], [0x53]]])"
proof -
  have gd: "getDiff example_env (sha (example_meta [0x63] [[0x64]]))
              = Some (diff_git @ [0x000A, 0x002B, 0x79, 0x000A] @ diff_git
                      @ [0x000A, 0x002B, 0x7A])"
    by (simp only: ex_sha ex_getDiff)
  have ch: "chunkBySize (splitPatchByFile
              (diff_git @ [0x000A, 0x002B, 0x79, 0x000A] @ diff_git @ [0x000A, 0x002B, 0x7A]))
              (DIFF_CHUNK_MAX_CHARS example_config) = Some [[0x002B, 0x79], [0x002B, 0x7A]]"
    by (simp only: ex_limit ex_chunks)
  have rp: "reply example_env
              (length [[], [], commitChunkPrompt (example_meta [0x63] [[0x64]]) 1 2 [0x002B, 0x79],
                       commitChunkPrompt (example_meta [0x63] [[0x64]]) 2 2 [0x002B, 0x7A]])
              (commitMergePrompt (example_meta [0x63] [[0x64]])
                 [failed_placeholder 0 [0x45], [0x53]])
              = Rejected [0x45]"
    by (simp add: ex_reply)
  from commit_tier_fallback [OF gd ex_trim(2) ch ex_chunk_tier_c rp]
  show ?thesis by (rule conjunct1)
qed

text \<open>
  C4: a commit whose diff is empty makes no completion call, neither for a chunk nor for
  the commit, and still stands in the input of the daily tier with the fixed placeholder
  as its summary. The prompts of a run are the prompts of its commits, commit after
  commit, followed by the daily prompt over all items; the part of a commit with an
  empty diff is empty, and its item carries the placeholder.
\<close>

theorem zero_diff_bypass:
  assumes "run e cfg = Report perCommitFinal daily calls"
    and "commitMetas e cfg = Some metas"
    and "i < length metas"
    and "getDiff e (sha (metas ! i)) = Some fullPatch"
    and "trim fullPatch = []"
  shows "\<exists>segs. length segs = length metas \<and> length perCommitFinal = length metas
       \<and> calls = concat segs
                  @ [dailyMergePrompt (todayLabel e) perCommitFinal
                       (if REPO cfg \<noteq> [] then REPO cfg else repository)]
       \<and> (\<forall>j<length metas.
             summarize_commit e cfg (metas ! j) (concat (take j segs))
               = Inr (perCommitFinal ! j, concat (take (Suc j) segs)))
       \<and> segs ! i = []
       \<and> perCommitFinal ! i = \<lparr> meta = metas ! i, summary = zero_diff_summary \<rparr>"
proof -
  from assms(1,2) obtain calls0 where
    loop: "perCommit_loop e cfg metas [] [] = Inr (perCommitFinal, calls0)"
    and d: "snd (daily_tier e cfg perCommitFinal calls0) = calls"
    by (auto simp: run_def Let_def split: if_splits sum.splits prod.splits)
  from perCommit_loop_segments [OF loop] obtain segs where
    segs: "length segs = length metas" "length perCommitFinal = length metas"
      "calls0 = concat segs"
      "\<forall>j<length metas.
         summarize_commit e cfg (metas ! j) (concat (take j segs))
           = Inr (perCommitFinal ! j, concat (take (Suc j) segs))"
    by auto
  from segs(4) assms(3)
  have "summarize_commit e cfg (metas ! i) (concat (take i segs))
          = Inr (perCommitFinal ! i, concat (take (Suc i) segs))"
    by simp
  with summarize_commit_zero [OF assms(4,5), of cfg "concat (take i segs)"]
  have it: "perCommitFinal ! i = \<lparr> meta = metas ! i, summary = zero_diff_summary \<rparr>"
    and c: "concat (take (Suc i) segs) = concat (take i segs)"
    by simp_all
  from c assms(3) segs(1) have "segs ! i = []"
    by (simp add: take_Suc_conv_app_nth)
  moreover from d segs(3)
  have "calls = concat segs
                @ [dailyMergePrompt (todayLabel e) perCommitFinal
                     (if REPO cfg \<noteq> [] then REPO cfg else repository)]"
    by (auto simp: daily_tier_def chat_def Let_def)
  ultimately show ?thesis
    using segs it by (intro exI [of _ segs]) simp
qed

theorem zero_diff_bypass_witness:
  "\<exists>segs. length segs = 3
     \<and> example_calls @ [dailyMergePrompt [0x44] example_items repository]
         = concat segs @ [dailyMergePrompt [0x44] example_items repository]
     \<and> segs ! 0 = []
     \<and> example_items ! 0
         = \<lparr> meta = example_meta [0x61] [[0x6D]], summary = zero_diff_summary \<rparr>"
proof -
  have i: "0 < length [example_meta [0x61] [[0x6D]], example_meta [0x62] [[0x64], [0x6D]],
                       example_meta [0x63] [[0x64]]]"
    by simp
  have gd: "getDiff example_env
              (sha ([example_meta [0x61] [[0x6D]], example_meta [0x62] [[0x64], [0x6D]],
                     example_meta [0x63] [[0x64]]] ! 0)) = Some []"
    by (simp add: ex_sha ex_getDiff)
  have tl: "todayLabel example_env = [0x44]"
    by (simp add: example_env_def)
  have repo: "(if REPO example_config \<noteq> [] then REPO example_config else repository)
                = repository"
    by (simp add: example_config_def)
  from zero_diff_bypass [OF ex_run ex_commitMetas_full i gd trim_Nil]
  obtain segs where
    "length segs = 3"
    "example_calls @ [dailyMergePrompt [0x44] example_items repository]
       = concat segs @ [dailyMergePrompt [0x44] example_items repository]"
    "segs ! 0 = []"
    "example_items ! 0
       = \<lparr> meta = example_meta [0x61] [[0x6D]], summary = zero_diff_summary \<rparr>"
    unfolding tl repo by (auto simp: numeral_3_eq_3)
  then show ?thesis
    by (intro exI [of _ segs]) blast
qed

end
